theory Spec2Isabelle
  imports Main
begin

section \<open>Python values\<close>

text \<open>
  The script \<^verbatim>\<open>examples/claude-api-integration.py\<close> moves decoded JSON between two
  services. A decoded JSON document is a Python value: \<^verbatim>\<open>None\<close>, a bool, a number, a
  \<^verbatim>\<open>str\<close>, a \<^verbatim>\<open>list\<close> or a \<^verbatim>\<open>dict\<close> with string keys. A dict is an association
  list read with \<open>map_of\<close>. Numbers are integers here; no branch of the script
  looks at a number except for its truth value.
\<close>

datatype json =
    JNull
  | JBool bool
  | JNum int
  | JStr string
  | JArr "json list"
  | JObj "(string \<times> json) list"

text \<open>Python's truth value, as used by \<^verbatim>\<open>if conversation_id:\<close>.\<close>

fun truthy :: "json \<Rightarrow> bool" where
  "truthy JNull = False"
| "truthy (JBool b) = b"
| "truthy (JNum n) = (n \<noteq> 0)"
| "truthy (JStr s) = (s \<noteq> [])"
| "truthy (JArr xs) = (xs \<noteq> [])"
| "truthy (JObj kvs) = (kvs \<noteq> [])"

text \<open>
  Every exception the script can raise is a value. \<open>RequestException\<close> stands for
  whatever \<^verbatim>\<open>requests.post\<close> raises on a transport failure and \<open>APIError\<close> for
  whatever the chat client raises.
\<close>

datatype error =
    ValueError
  | StopIteration
  | KeyError
  | TypeError
  | AttributeError
  | HTTPError nat
  | JSONDecodeError
  | RequestException
  | APIError

text \<open>\<^verbatim>\<open>d.get(k, default)\<close> on a dict; \<^verbatim>\<open>d.get(k)\<close> is \<open>dict_get d k JNull\<close>.\<close>

definition dict_get :: "(string \<times> json) list \<Rightarrow> string \<Rightarrow> json \<Rightarrow> json" where
  "dict_get d k dflt = (case map_of d k of None \<Rightarrow> dflt | Some v \<Rightarrow> v)"

text \<open>\<^verbatim>\<open>x[k]\<close> with a string key: KeyError on a dict without the key, TypeError on
  any value that is not a dict.\<close>

fun subscript :: "json \<Rightarrow> string \<Rightarrow> error + json" where
  "subscript (JObj d) k = (case map_of d k of None \<Rightarrow> Inl KeyError | Some v \<Rightarrow> Inr v)"
| "subscript _ k = Inl TypeError"

text \<open>\<^verbatim>\<open>x[:n]\<close>: defined on strings and lists, an error on every other value
  (TypeError; a dict raises KeyError instead from Python 3.12 on).\<close>

fun slice_to :: "nat \<Rightarrow> json \<Rightarrow> error + json" where
  "slice_to n (JStr s) = Inr (JStr (take n s))"
| "slice_to n (JArr xs) = Inr (JArr (take n xs))"
| "slice_to n _ = Inl TypeError"

text \<open>\<^verbatim>\<open>len(x)\<close>: defined on strings, lists and dicts.\<close>

fun len :: "json \<Rightarrow> error + nat" where
  "len (JStr s) = Inr (length s)"
| "len (JArr xs) = Inr (length xs)"
| "len (JObj d) = Inr (length d)"
| "len _ = Inl TypeError"

section \<open>The two external services\<close>

subsection \<open>Chat service\<close>

record tool_use =
  tu_id :: string
  tu_name :: string
  tu_input :: json

text \<open>A content block of a chat response: a text block (the only kind with a
  \<^verbatim>\<open>text\<close> attribute), a tool-use block (the only kind whose \<^verbatim>\<open>type\<close> is
  \<^verbatim>\<open>"tool_use"\<close>), or a block of any other kind.\<close>

datatype content_block =
    TextBlock string
  | ToolUseBlock tool_use
  | OtherBlock

record response =
  stop_reason :: "string option"
  content :: "content_block list"

record tool_result =
  tool_use_id :: string
  result_content :: json

datatype message_content =
    Text string
  | Blocks "content_block list"
  | ToolResults "tool_result list"

record message =
  role :: string
  msg_content :: message_content

record chat_request =
  model :: string
  max_tokens :: nat
  tools :: json
  messages :: "message list"

subsection \<open>Bridge\<close>

text \<open>What \<^verbatim>\<open>requests.post\<close> returns: the status code and the result of
  \<^verbatim>\<open>response.json()\<close>, \<open>None\<close> when the body does not decode.\<close>

record http_response =
  status_code :: nat
  json_body :: "json option"

text \<open>The dict returned by \<^verbatim>\<open>call_david_gpt\<close>, with its three fixed keys.\<close>

record bridge_result =
  result_conversation_id :: json
  result_response :: json
  result_citations :: json

subsection \<open>State\<close>

text \<open>
  The services are deterministic functions of an abstract world \<open>'w\<close>, which holds
  whatever they remember between calls. The state of the script is the module
  variable \<^verbatim>\<open>conversation_id\<close> and the world; \<open>trace\<close> is a log with one entry
  for every call to either service, in the order the calls are made, with what the call
  was given and what came back. Output printed to the terminal is not part of the
  state; the errors that evaluating a printed expression can raise are.
\<close>

datatype event =
    ChatCall chat_request "error + response"
  | BridgeCall string json "error + bridge_result"

record 'w state =
  conversation_id :: json
  trace :: "event list"
  world :: 'w

type_synonym 'w chat_service = "'w \<Rightarrow> chat_request \<Rightarrow> (error + response) \<times> 'w"
type_synonym 'w http_post = "'w \<Rightarrow> string \<Rightarrow> json \<Rightarrow> (error + http_response) \<times> 'w"

section \<open>The script\<close>

subsection \<open>call_david_gpt (lines 32-62)\<close>

text \<open>\<^verbatim>\<open>response.raise_for_status()\<close> of the requests library raises HTTPError for
  a status code from 400 to 599 and returns for every other code.\<close>

definition raise_for_status :: "http_response \<Rightarrow> error + unit" where
  "raise_for_status r =
     (if 400 \<le> status_code r \<and> status_code r < 600 then Inl (HTTPError (status_code r))
      else Inr ())"

text \<open>The \<^verbatim>\<open>json=\<close> argument of the two \<^verbatim>\<open>requests.post\<close> calls, by the test
  \<^verbatim>\<open>if conversation_id:\<close> of line 34.\<close>

definition request_json :: "json \<Rightarrow> json \<Rightarrow> json" where
  "request_json message cid =
     (if truthy cid then
        JObj [(''action'', JStr ''reply_to_conversation''),
              (''conversation_id'', cid),
              (''message'', message)]
      else
        JObj [(''action'', JStr ''new_conversation''),
              (''message'', message),
              (''persona'', JStr ''david'')])"

definition call_david_gpt ::
  "'w http_post \<Rightarrow> string \<Rightarrow> json \<Rightarrow> json \<Rightarrow> 'w state \<Rightarrow> (error + bridge_result) \<times> 'w state"
where
  "call_david_gpt post url message cid st =
     (let body = request_json message cid;
          (reply, w') = post (world st) url body;
          out =
            (case reply of
               Inl e \<Rightarrow> Inl e
             | Inr r \<Rightarrow>
                 (case raise_for_status r of
                    Inl e \<Rightarrow> Inl e
                  | Inr _ \<Rightarrow>
                      (case json_body r of
                         None \<Rightarrow> Inl JSONDecodeError
                       | Some (JObj data) \<Rightarrow>
                           Inr \<lparr>result_conversation_id = dict_get data ''conversation_id'' JNull,
                                result_response = dict_get data ''response'' JNull,
                                result_citations = dict_get data ''citations'' (JArr [])\<rparr>
                       | Some _ \<Rightarrow> Inl AttributeError)))
      in (out, st\<lparr>world := w', trace := trace st @ [BridgeCall url body out]\<rparr>))"

subsection \<open>The declared tool (lines 65-89)\<close>

definition tool_description :: string where
  "tool_description =
     ''Ask David's RAG knowledge base about 3D displays, Leia technology, computer vision, AI, and related technical topics.\<newline>\<newline>        The system returns cited responses from technical documents, patents, and research papers.\<newline>        Use this when the user asks about:\<newline>        - Leia technology and 3D displays\<newline>        - Diffractive Lightfield Backlighting (DLB)\<newline>        - 3D Cell / Liquid Crystal lens technology\<newline>        - Glasses-free 3D displays\<newline>        - Computer vision and AI topics\<newline>        - Patents and technical innovations''"

definition tools_decl :: json where
  "tools_decl =
     JArr [JObj [(''name'', JStr ''ask_david_gpt''),
                 (''description'', JStr tool_description),
                 (''input_schema'',
                    JObj [(''type'', JStr ''object''),
                          (''properties'',
                             JObj [(''message'',
                                      JObj [(''type'', JStr ''string''),
                                            (''description'', JStr ''Question or query for the RAG system'')])]),
                          (''required'', JArr [JStr ''message''])])]]"

definition create_request :: "message list \<Rightarrow> chat_request" where
  "create_request ms =
     \<lparr>model = ''claude-3-5-sonnet-20241022'', max_tokens = 2048, tools = tools_decl, messages = ms\<rparr>"

subsection \<open>chat_with_claude (lines 91-154)\<close>

text \<open>\<^verbatim>\<open>next(block for block in response.content if block.type == "tool_use")\<close>;
  \<open>None\<close> is where \<^verbatim>\<open>next\<close> raises StopIteration.\<close>

fun first_tool_use :: "content_block list \<Rightarrow> tool_use option" where
  "first_tool_use [] = None"
| "first_tool_use (ToolUseBlock tu # bs) = Some tu"
| "first_tool_use (_ # bs) = first_tool_use bs"

text \<open>\<^verbatim>\<open>next((block.text for block in response.content if hasattr(block, "text")), None)\<close>.\<close>

fun first_text :: "content_block list \<Rightarrow> string option" where
  "first_text [] = None"
| "first_text (TextBlock t # bs) = Some t"
| "first_text (_ # bs) = first_text bs"

text \<open>The body of the while loop, lines 111-144: one tool round. It returns the
  extended transcript and the next chat response, or the exception raised.\<close>

definition loop_body ::
  "'w chat_service \<Rightarrow> 'w http_post \<Rightarrow> string \<Rightarrow> 'w state \<Rightarrow> message list \<Rightarrow> response
     \<Rightarrow> (error + message list \<times> response) \<times> 'w state"
where
  "loop_body create post url st ms resp =
     (case first_tool_use (content resp) of
        None \<Rightarrow> (Inl StopIteration, st)
      | Some tu \<Rightarrow>
          (case subscript (tu_input tu) ''message'' of
             Inl e \<Rightarrow> (Inl e, st)
           | Inr message \<Rightarrow>
               (case call_david_gpt post url message (conversation_id st) st of
                  (Inl e, st1) \<Rightarrow> (Inl e, st1)
                | (Inr result, st1) \<Rightarrow>
                    (let st2 =
                           (if truthy (result_conversation_id result)
                            then st1\<lparr>conversation_id := result_conversation_id result\<rparr>
                            else st1)
                     in case slice_to 200 (result_response result) of
                          Inl e \<Rightarrow> (Inl e, st2)
                        | Inr _ \<Rightarrow>
                            (case len (result_citations result) of
                               Inl e \<Rightarrow> (Inl e, st2)
                             | Inr _ \<Rightarrow>
                                 (let ms' = ms @
                                        [\<lparr>role = ''assistant'', msg_content = Blocks (content resp)\<rparr>,
                                         \<lparr>role = ''user'',
                                          msg_content = ToolResults
                                            [\<lparr>tool_use_id = tu_id tu,
                                              result_content = result_response result\<rparr>]\<rparr>];
                                      (reply, w') = create (world st2) (create_request ms');
                                      st3 = st2\<lparr>world := w',
                                                trace := trace st2 @ [ChatCall (create_request ms') reply]\<rparr>
                                  in case reply of
                                       Inl e \<Rightarrow> (Inl e, st3)
                                     | Inr resp' \<Rightarrow> (Inr (ms', resp'), st3)))))))"

text \<open>The while loop of line 110 and the return of lines 147-154. The loop runs for
  as long as the chat service keeps asking for the tool, so it takes fuel: the number
  of rounds it may run. The first component of the result is \<open>None\<close> when the fuel is
  used up with the loop still running; the state is then the state reached so far.\<close>

fun loop ::
  "nat \<Rightarrow> 'w chat_service \<Rightarrow> 'w http_post \<Rightarrow> string \<Rightarrow> 'w state \<Rightarrow> message list \<Rightarrow> response
     \<Rightarrow> (error + string option) option \<times> 'w state"
where
  "loop 0 create post url st ms resp =
     (if stop_reason resp = Some ''tool_use'' then (None, st)
      else (Some (Inr (first_text (content resp))), st))"
| "loop (Suc n) create post url st ms resp =
     (if stop_reason resp = Some ''tool_use'' then
        (case loop_body create post url st ms resp of
           (Inl e, st') \<Rightarrow> (Some (Inl e), st')
         | (Inr (ms', resp'), st') \<Rightarrow> loop n create post url st' ms' resp')
      else (Some (Inr (first_text (content resp))), st))"

definition chat_with_claude ::
  "nat \<Rightarrow> 'w chat_service \<Rightarrow> 'w http_post \<Rightarrow> string \<Rightarrow> 'w state \<Rightarrow> string
     \<Rightarrow> (error + string option) option \<times> 'w state"
where
  "chat_with_claude n create post url st user_message =
     (let ms = [\<lparr>role = ''user'', msg_content = Text user_message\<rparr>];
          (reply, w') = create (world st) (create_request ms);
          st' = st\<lparr>world := w', trace := trace st @ [ChatCall (create_request ms) reply]\<rparr>
      in case reply of
           Inl e \<Rightarrow> (Some (Inl e), st')
         | Inr resp \<Rightarrow> loop n create post url st' ms resp)"

subsection \<open>The module: start-up and example run (lines 20-30 and 157-173)\<close>

text \<open>A process run is a sequence of exchanges on the one module state; an exception
  in an exchange is not caught and ends the run.\<close>

fun exchanges ::
  "nat \<Rightarrow> 'w chat_service \<Rightarrow> 'w http_post \<Rightarrow> string \<Rightarrow> 'w state \<Rightarrow> string list
     \<Rightarrow> (error + unit) option \<times> 'w state"
where
  "exchanges n create post url st [] = (Some (Inr ()), st)"
| "exchanges n create post url st (m # ums) =
     (case chat_with_claude n create post url st m of
        (None, st') \<Rightarrow> (None, st')
      | (Some (Inl e), st') \<Rightarrow> (Some (Inl e), st')
      | (Some (Inr _), st') \<Rightarrow> exchanges n create post url st' ums)"

definition main ::
  "nat \<Rightarrow> 'w chat_service \<Rightarrow> 'w http_post \<Rightarrow> string \<Rightarrow> 'w state \<Rightarrow> (error + unit) option \<times> 'w state"
where
  "main n create post url st =
     exchanges n create post url st
       [''What is Leia technology and how does it work?'',
        ''What are the advantages of the 3D Cell approach over the older DLB technology?'',
        ''Can you summarize the key innovations in simple terms?'']"

text \<open>The module body. \<open>env\<close> is the process environment, \<open>Anthropic key\<close> the
  \<^verbatim>\<open>messages.create\<close> of the client built from the credential.\<close>

definition initial_state :: "'w \<Rightarrow> 'w state" where
  "initial_state w = \<lparr>conversation_id = JNull, trace = [], world = w\<rparr>"

definition program ::
  "nat \<Rightarrow> (string \<Rightarrow> 'w chat_service) \<Rightarrow> 'w http_post \<Rightarrow> (string \<rightharpoonup> string) \<Rightarrow> 'w
     \<Rightarrow> (error + unit) option \<times> 'w state"
where
  "program n Anthropic post env w =
     (let MCP_BRIDGE_URL =
            (case env ''MCP_BRIDGE_URL'' of
               None \<Rightarrow> ''http://localhost:3000/api/mcp-bridge''
             | Some u \<Rightarrow> u);
          ANTHROPIC_API_KEY = env ''ANTHROPIC_API_KEY''
      in case ANTHROPIC_API_KEY of
           None \<Rightarrow> (Some (Inl ValueError), initial_state w)
         | Some key \<Rightarrow>
             (if key = [] then (Some (Inl ValueError), initial_state w)
              else main n (Anthropic key) post MCP_BRIDGE_URL (initial_state w)))"

section \<open>Scripted services\<close>

text \<open>Test doubles for the two services: the world is a pair of scripts, and each call
  takes the next scripted reply. A chat script that has run out raises; so does a
  bridge script.\<close>

type_synonym script = "(error + response) list \<times> (error + http_response) list"

definition scripted_create :: "script chat_service" where
  "scripted_create w req =
     (case fst w of [] \<Rightarrow> (Inl APIError, w) | c # cs \<Rightarrow> (c, (cs, snd w)))"

definition scripted_post :: "script http_post" where
  "scripted_post w url body =
     (case snd w of [] \<Rightarrow> (Inl RequestException, w) | b # bs \<Rightarrow> (b, (fst w, bs)))"

definition tool_request :: "string \<Rightarrow> string \<Rightarrow> json \<Rightarrow> response" where
  "tool_request i nm inp =
     \<lparr>stop_reason = Some ''tool_use'',
      content = [ToolUseBlock \<lparr>tu_id = i, tu_name = nm, tu_input = inp\<rparr>]\<rparr>"

definition final_answer :: "string \<Rightarrow> response" where
  "final_answer t = \<lparr>stop_reason = Some ''end_turn'', content = [TextBlock t]\<rparr>"

definition bridge_reply :: "nat \<Rightarrow> (string \<times> json) list \<Rightarrow> http_response" where
  "bridge_reply code d = \<lparr>status_code = code, json_body = Some (JObj d)\<rparr>"

section \<open>Reading the log\<close>

text \<open>The conversation identifier a bridge request carries, if it carries one.\<close>

fun sent_id :: "json \<Rightarrow> json option" where
  "sent_id (JObj d) = map_of d ''conversation_id''"
| "sent_id _ = None"

text \<open>The conversation identifier a bridge call returned: the value under
  \<^verbatim>\<open>conversation_id\<close> when the call returned and that value is true in Python's sense
  (not \<^verbatim>\<open>None\<close>, not empty).\<close>

fun returned_id :: "error + bridge_result \<Rightarrow> json option" where
  "returned_id (Inl e) = None"
| "returned_id (Inr res) =
     (if truthy (result_conversation_id res) then Some (result_conversation_id res) else None)"

text \<open>The identifier most recently returned by a bridge call of the log, starting
  from \<open>cur\<close>.\<close>

fun latest_id :: "json option \<Rightarrow> event list \<Rightarrow> json option" where
  "latest_id cur [] = cur"
| "latest_id cur (ChatCall req reply # es) = latest_id cur es"
| "latest_id cur (BridgeCall u body out # es) =
     latest_id (case returned_id out of None \<Rightarrow> cur | Some c \<Rightarrow> Some c) es"

text \<open>Every bridge request of the log carries the identifier most recently returned
  before it, and carries none when none has been returned.\<close>

fun ids_follow :: "json option \<Rightarrow> event list \<Rightarrow> bool" where
  "ids_follow cur [] = True"
| "ids_follow cur (ChatCall req reply # es) = ids_follow cur es"
| "ids_follow cur (BridgeCall u body out # es) =
     (sent_id body = cur \<and>
      ids_follow (case returned_id out of None \<Rightarrow> cur | Some c \<Rightarrow> Some c) es)"

text \<open>The value of the module variable for an identifier that may be absent.\<close>

fun stored :: "json option \<Rightarrow> json" where
  "stored None = JNull"
| "stored (Some c) = c"

text \<open>The body of the first bridge request of a log.\<close>

fun first_bridge_body :: "event list \<Rightarrow> json option" where
  "first_bridge_body [] = None"
| "first_bridge_body (ChatCall req reply # es) = first_bridge_body es"
| "first_bridge_body (BridgeCall u body out # es) = Some body"

text \<open>The chat calls of a log, in order.\<close>

fun chat_calls :: "event list \<Rightarrow> (chat_request \<times> (error + response)) list" where
  "chat_calls [] = []"
| "chat_calls (ChatCall req reply # es) = (req, reply) # chat_calls es"
| "chat_calls (BridgeCall u body out # es) = chat_calls es"

fun bridge_calls :: "event list \<Rightarrow> (json \<times> (error + bridge_result)) list" where
  "bridge_calls [] = []"
| "bridge_calls (ChatCall req reply # es) = bridge_calls es"
| "bridge_calls (BridgeCall u body out # es) = (body, out) # bridge_calls es"

text \<open>The text a tool-result turn carries.\<close>

fun carried :: "message_content \<Rightarrow> json" where
  "carried (ToolResults (tr # trs)) = result_content tr"
| "carried _ = JNull"

text \<open>\<open>ms'\<close> is \<open>ms\<close> followed by exactly two turns: the assistant turn holding
  the content of the chat reply to \<open>ms\<close>, then a user turn holding one tool result
  keyed to the identifier of the first tool-use block of that reply.\<close>

definition tool_round_appended :: "message list \<Rightarrow> error + response \<Rightarrow> message list \<Rightarrow> bool" where
  "tool_round_appended ms reply ms' =
     (case reply of
        Inl e \<Rightarrow> False
      | Inr resp \<Rightarrow>
          (case first_tool_use (content resp) of
             None \<Rightarrow> False
           | Some tu \<Rightarrow>
               ms' = ms @
                 [\<lparr>role = ''assistant'', msg_content = Blocks (content resp)\<rparr>,
                  \<lparr>role = ''user'',
                   msg_content = ToolResults
                     [\<lparr>tool_use_id = tu_id tu,
                       result_content = carried (msg_content (last ms'))\<rparr>]\<rparr>]))"

fun append_only :: "(chat_request \<times> (error + response)) list \<Rightarrow> bool" where
  "append_only (c # c' # cs) =
     (tool_round_appended (messages (fst c)) (snd c) (messages (fst c')) \<and> append_only (c' # cs))"
| "append_only cs = True"

text \<open>A chat response with every tool-use block renamed by \<open>f\<close>.\<close>

fun rename_block :: "(string \<Rightarrow> string) \<Rightarrow> content_block \<Rightarrow> content_block" where
  "rename_block f (ToolUseBlock tu) = ToolUseBlock (tu\<lparr>tu_name := f (tu_name tu)\<rparr>)"
| "rename_block f b = b"

definition rename_tools :: "(string \<Rightarrow> string) \<Rightarrow> response \<Rightarrow> response" where
  "rename_tools f resp = resp\<lparr>content := map (rename_block f) (content resp)\<rparr>"

section \<open>What the services receive\<close>

text \<open>A service wrapped so that the world keeps, beside the world of the service
  itself, the list of every request the service was given with its reply, in order.
  The script cannot write to this list; only a call that reaches the service does.\<close>

datatype received =
    ChatReceived chat_request "error + response"
  | PostReceived string json "error + http_response"

definition recorded_create :: "'w chat_service \<Rightarrow> ('w \<times> received list) chat_service" where
  "recorded_create create w req =
     (let (reply, w') = create (fst w) req
      in (reply, (w', snd w @ [ChatReceived req reply])))"

definition recorded_post :: "'w http_post \<Rightarrow> ('w \<times> received list) http_post" where
  "recorded_post post w url body =
     (let (reply, w') = post (fst w) url body
      in (reply, (w', snd w @ [PostReceived url body reply])))"

text \<open>A log entry and a received request are the same call.\<close>

fun same_call :: "event \<Rightarrow> received \<Rightarrow> bool" where
  "same_call (ChatCall req reply) (ChatReceived req' reply') = (req = req' \<and> reply = reply')"
| "same_call (BridgeCall url body out) (PostReceived url' body' reply') = (url = url' \<and> body = body')"
| "same_call e r = False"

text \<open>The chat requests received, in order, and the body of the first bridge request
  received.\<close>

fun received_chats :: "received list \<Rightarrow> (chat_request \<times> (error + response)) list" where
  "received_chats [] = []"
| "received_chats (ChatReceived req reply # rs) = (req, reply) # received_chats rs"
| "received_chats (PostReceived url body reply # rs) = received_chats rs"

fun first_post_body :: "received list \<Rightarrow> json option" where
  "first_post_body [] = None"
| "first_post_body (ChatReceived req reply # rs) = first_post_body rs"
| "first_post_body (PostReceived url body reply # rs) = Some body"

text \<open>From \<open>st\<close> to \<open>st'\<close> the log and the list of received requests have grown
  by the same calls.\<close>

definition synced_from :: "('w \<times> received list) state \<Rightarrow> ('w \<times> received list) state \<Rightarrow> bool" where
  "synced_from st st' =
     (take (length (trace st)) (trace st') = trace st \<and>
      take (length (snd (world st))) (snd (world st')) = snd (world st) \<and>
      list_all2 same_call (drop (length (trace st)) (trace st'))
                          (drop (length (snd (world st))) (snd (world st'))))"

section \<open>Example runs\<close>

text \<open>The scenario of the specification: the user says ping, the chat service asks
  for the tool with the message ping, the bridge answers pong in conversation c1, and
  the chat service closes with a text.\<close>

definition ping_request :: response where
  "ping_request = tool_request ''toolu_1'' ''ask_david_gpt'' (JObj [(''message'', JStr ''ping'')])"

definition ping_script :: script where
  "ping_script =
     ([Inr ping_request, Inr (final_answer ''pong received'')],
      [Inr (bridge_reply 200
              [(''conversation_id'', JStr ''c1''), (''response'', JStr ''pong''),
               (''citations'', JArr [])])])"

text \<open>Two exchanges with one tool round each; the second bridge reply carries no
  conversation identifier and no citations.\<close>

definition two_round_script :: script where
  "two_round_script =
     ([Inr ping_request, Inr (final_answer ''pong received''),
       Inr (tool_request ''toolu_2'' ''ask_david_gpt'' (JObj [(''message'', JStr ''more'')])),
       Inr (final_answer ''that is all'')],
      [Inr (bridge_reply 200 [(''conversation_id'', JStr ''c1''), (''response'', JStr ''pong'')]),
       Inr (bridge_reply 200 [(''response'', JStr ''details'')])])"

text \<open>The bridge answers with status 300 and a JSON body.\<close>

definition redirect_script :: script where
  "redirect_script =
     ([Inr ping_request, Inr (final_answer ''done'')],
      [Inr (bridge_reply 300 [(''conversation_id'', JStr ''c9''), (''response'', JStr ''moved'')])])"

text \<open>The bridge answers with status 503.\<close>

definition unavailable_script :: script where
  "unavailable_script =
     ([Inr ping_request, Inr (final_answer ''never asked for'')],
      [Inr (bridge_reply 503 [(''conversation_id'', JStr ''c9'')])])"

text \<open>The chat service stops with reason \<^verbatim>\<open>tool_use\<close> but its content has no tool-use
  block.\<close>

definition no_tool_block_script :: script where
  "no_tool_block_script =
     ([Inr \<lparr>stop_reason = Some ''tool_use'', content = [TextBlock ''let me look that up'']\<rparr>,
       Inr (final_answer ''never asked for'')],
      [Inr (bridge_reply 200 [(''response'', JStr ''pong'')])])"

section \<open>Invariant of the session state\<close>

text \<open>The log and the module variable agree: every bridge request so far carried the
  identifier returned last before it, the variable holds the identifier returned last,
  and that identifier is true in Python's sense.\<close>

definition session_inv :: "'w state \<Rightarrow> bool" where
  "session_inv st =
     (ids_follow None (trace st) \<and>
      conversation_id st = stored (latest_id None (trace st)) \<and>
      (case latest_id None (trace st) of None \<Rightarrow> True | Some c \<Rightarrow> truthy c))"

text \<open>The state after the bridge call of a round with message \<open>m\<close> and the
  assignment of lines 120-121.\<close>

definition after_bridge :: "'w http_post \<Rightarrow> string \<Rightarrow> json \<Rightarrow> 'w state \<Rightarrow> 'w state" where
  "after_bridge post url m st =
     (let st1 = snd (call_david_gpt post url m (conversation_id st) st)
      in case returned_id (fst (call_david_gpt post url m (conversation_id st) st)) of
           None \<Rightarrow> st1
         | Some c \<Rightarrow> st1\<lparr>conversation_id := c\<rparr>)"

section \<open>Facts about the log\<close>

lemmas run_defs =
  chat_with_claude_def loop_body_def call_david_gpt_def request_json_def raise_for_status_def
  dict_get_def scripted_create_def scripted_post_def tool_request_def final_answer_def
  bridge_reply_def initial_state_def ping_request_def Let_def

lemma latest_id_append: "latest_id cur (xs @ ys) = latest_id (latest_id cur xs) ys"
  by (induction cur xs rule: latest_id.induct) auto

lemma ids_follow_append:
  "ids_follow cur (xs @ ys) = (ids_follow cur xs \<and> ids_follow (latest_id cur xs) ys)"
  by (induction cur xs rule: ids_follow.induct) auto

lemma chat_calls_append: "chat_calls (xs @ ys) = chat_calls xs @ chat_calls ys"
  by (induction xs rule: chat_calls.induct) auto

lemma append_only_snoc:
  "append_only (cs @ [c]) =
     (append_only cs \<and> (cs = [] \<or> tool_round_appended (messages (fst (last cs))) (snd (last cs)) (messages (fst c))))"
  by (induction cs rule: append_only.induct) auto

lemma call_david_gpt_state:
  "snd (call_david_gpt post url message cid st) =
     st\<lparr>world := snd (post (world st) url (request_json message cid)),
        trace := trace st @ [BridgeCall url (request_json message cid)
                               (fst (call_david_gpt post url message cid st))]\<rparr>"
  by (simp add: call_david_gpt_def Let_def split: prod.splits)

lemma sent_id_request_json:
  "sent_id (request_json m cid) = (if truthy cid then Some cid else None)"
  by (simp add: request_json_def)

lemma session_inv_sent:
  "session_inv st \<Longrightarrow> sent_id (request_json m (conversation_id st)) = latest_id None (trace st)"
  by (auto simp: session_inv_def sent_id_request_json split: option.splits)

lemma after_bridge_inv: "session_inv st \<Longrightarrow> session_inv (after_bridge post url m st)"
  unfolding after_bridge_def Let_def
  apply (frule session_inv_sent[of st m])
  apply (cases "fst (call_david_gpt post url m (conversation_id st) st)")
   apply (auto simp: session_inv_def call_david_gpt_state latest_id_append ids_follow_append split: option.splits)
  done

lemma chat_event_inv:
  "session_inv st \<Longrightarrow> session_inv (st\<lparr>world := w, trace := trace st @ [ChatCall req reply]\<rparr>)"
  by (simp add: session_inv_def latest_id_append ids_follow_append)

lemma loop_body_inv:
  "session_inv st \<Longrightarrow> session_inv (snd (loop_body create post url st ms resp))"
proof -
  assume inv: "session_inv st"
  show ?thesis
  proof (cases "first_tool_use (content resp)")
    case None
    then show ?thesis using inv by (simp add: loop_body_def)
  next
    case (Some tu)
    show ?thesis
    proof (cases "subscript (tu_input tu) ''message''")
      case (Inl e)
      then show ?thesis using inv Some by (simp add: loop_body_def)
    next
      case (Inr m)
      have ab: "session_inv (after_bridge post url m st)" by (rule after_bridge_inv[OF inv])
      show ?thesis
      proof (cases "call_david_gpt post url m (conversation_id st) st")
        case (Pair out st1)
        show ?thesis
        proof (cases out)
          case (Inl e)
          then show ?thesis using Some Inr Pair ab
            by (simp add: loop_body_def after_bridge_def)
        next
          case res: (Inr result)
          then show ?thesis using Some Inr Pair ab chat_event_inv[OF ab]
            by (auto simp add: loop_body_def after_bridge_def Let_def split: sum.splits prod.splits if_splits)
        qed
      qed
    qed
  qed
qed


lemma loop_inv:
  "session_inv st \<Longrightarrow> session_inv (snd (loop n create post url st ms resp))"
proof (induction n arbitrary: st ms resp)
  case 0
  then show ?case by simp
next
  case (Suc n)
  have body: "session_inv (snd (loop_body create post url st ms resp))"
    by (rule loop_body_inv[OF Suc.prems])
  show ?case
  proof (cases "loop_body create post url st ms resp")
    case (Pair r st')
    with body have st': "session_inv st'" by simp
    show ?thesis
    proof (cases r)
      case (Inl e)
      then show ?thesis using Pair st' Suc.prems by simp
    next
      case (Inr p)
      then show ?thesis using Pair Suc.IH[OF st'] Suc.prems
        by (cases p) simp
    qed
  qed
qed

lemma chat_with_claude_inv:
  "session_inv st \<Longrightarrow> session_inv (snd (chat_with_claude n create post url st um))"
  by (auto simp: chat_with_claude_def Let_def split: prod.splits sum.splits
        intro!: loop_inv chat_event_inv)

lemma exchanges_inv:
  "session_inv st \<Longrightarrow> session_inv (snd (exchanges n create post url st ums))"
proof (induction ums arbitrary: st)
  case Nil
  then show ?case by simp
next
  case (Cons m ums)
  have "session_inv (snd (chat_with_claude n create post url st m))"
    by (rule chat_with_claude_inv[OF Cons.prems])
  then show ?case using Cons.IH
    by (auto split: prod.splits option.splits sum.splits)
qed

lemma initial_state_inv: "session_inv (initial_state w)"
  by (simp add: session_inv_def initial_state_def)

lemma first_bridge_body_follow:
  "ids_follow cur es \<Longrightarrow> first_bridge_body es = Some body \<Longrightarrow> sent_id body = cur"
  by (induction cur es rule: ids_follow.induct) auto

lemma call_david_gpt_trace:
  "trace (snd (call_david_gpt post url m cid st)) =
     trace st @ [BridgeCall url (request_json m cid) (fst (call_david_gpt post url m cid st))]"
  by (simp add: call_david_gpt_state)

lemma loop_body_cases:
  fixes create :: "'w chat_service"
  obtains
    (no_call) e where
      "loop_body create post url st ms resp = (Inl e, st)"
      "first_tool_use (content resp) = None \<or>
       (\<exists>tu. first_tool_use (content resp) = Some tu \<and> subscript (tu_input tu) ''message'' = Inl e)"
  | (bridge_only) tu m out e st' where
      "first_tool_use (content resp) = Some tu"
      "subscript (tu_input tu) ''message'' = Inr m"
      "loop_body create post url st ms resp = (Inl e, st')"
      "trace st' = trace st @ [BridgeCall url (request_json m (conversation_id st)) out]"
      "case out of Inl e' \<Rightarrow> e' = e | Inr res \<Rightarrow> True"
  | (chat_again) tu m out c reply st' where
      "first_tool_use (content resp) = Some tu"
      "subscript (tu_input tu) ''message'' = Inr m"
      "trace st' = trace st @
         [BridgeCall url (request_json m (conversation_id st)) out,
          ChatCall (create_request (ms @
             [\<lparr>role = ''assistant'', msg_content = Blocks (content resp)\<rparr>,
              \<lparr>role = ''user'', msg_content = ToolResults [\<lparr>tool_use_id = tu_id tu, result_content = c\<rparr>]\<rparr>])) reply]"
      "loop_body create post url st ms resp =
         ((case reply of Inl e \<Rightarrow> Inl e
           | Inr resp' \<Rightarrow> Inr (ms @
             [\<lparr>role = ''assistant'', msg_content = Blocks (content resp)\<rparr>,
              \<lparr>role = ''user'', msg_content = ToolResults [\<lparr>tool_use_id = tu_id tu, result_content = c\<rparr>]\<rparr>], resp')), st')"
      "case out of Inl e' \<Rightarrow> False | Inr res \<Rightarrow> c = result_response res"
proof (cases "first_tool_use (content resp)")
  case None
  then show ?thesis using no_call by (simp add: loop_body_def)
next
  case (Some tu)
  show ?thesis
  proof (cases "subscript (tu_input tu) ''message''")
    case (Inl e)
    then show ?thesis using Some no_call by (simp add: loop_body_def)
  next
    case (Inr m)
    obtain out st1 where call: "call_david_gpt post url m (conversation_id st) st = (out, st1)"
      by (cases "call_david_gpt post url m (conversation_id st) st")
    have tr1: "trace st1 = trace st @ [BridgeCall url (request_json m (conversation_id st)) out]"
      using call_david_gpt_trace[of "post" url m "conversation_id st" st] call by simp
    show ?thesis
    proof (cases out)
      case (Inl e)
      then show ?thesis using Some Inr call tr1 bridge_only by (simp add: loop_body_def)
    next
      case res: (Inr result)
      define st2 where "st2 = (if truthy (result_conversation_id result)
                            then st1\<lparr>conversation_id := result_conversation_id result\<rparr> else st1)"
      have tr2: "trace st2 = trace st1" by (simp add: st2_def)
      show ?thesis
      proof (cases "slice_to 200 (result_response result)")
        case (Inl e)
        then show ?thesis using Some Inr call res tr1 tr2 bridge_only[of tu m e st2 out]
          by (simp add: loop_body_def st2_def)
      next
        case sl: (Inr s)
        show ?thesis
        proof (cases "len (result_citations result)")
          case (Inl e)
          then show ?thesis using Some Inr call res sl tr1 tr2 bridge_only[of tu m e st2 out]
            by (simp add: loop_body_def st2_def)
        next
          case ln: (Inr k)
          let ?ms' = "ms @
             [\<lparr>role = ''assistant'', msg_content = Blocks (content resp)\<rparr>,
              \<lparr>role = ''user'', msg_content = ToolResults [\<lparr>tool_use_id = tu_id tu, result_content = result_response result\<rparr>]\<rparr>]"
          obtain reply w' where cr: "create (world st2) (create_request ?ms') = (reply, w')"
            by (cases "create (world st2) (create_request ?ms')")
          let ?st3 = "st2\<lparr>world := w', trace := trace st2 @ [ChatCall (create_request ?ms') reply]\<rparr>"
          have "loop_body create post url st ms resp =
             ((case reply of Inl e \<Rightarrow> Inl e | Inr resp' \<Rightarrow> Inr (?ms', resp')), ?st3)"
            using Some Inr call res sl ln cr
            by (simp add: loop_body_def st2_def Let_def split: sum.splits)
          moreover have "trace ?st3 = trace st @
             [BridgeCall url (request_json m (conversation_id st)) out, ChatCall (create_request ?ms') reply]"
            using tr1 tr2 by simp
          ultimately show ?thesis
            using chat_again[of tu m ?st3 out "result_response result" reply] Some Inr res
            by simp
        qed
      qed
    qed
  qed
qed

lemma loop_trace_prefix:
  "\<exists>es. trace (snd (loop n create post url st ms resp)) = trace st @ es"
proof (induction n arbitrary: st ms resp)
  case 0
  then show ?case by simp
next
  case (Suc n)
  show ?case
  proof (cases "stop_reason resp = Some ''tool_use''")
    case False
    then show ?thesis by simp
  next
    case True
    show ?thesis
    proof (cases rule: loop_body_cases[of create "post" url st ms resp])
      case (no_call e)
      then show ?thesis using True by simp
    next
      case (bridge_only tu m out e st')
      then show ?thesis using True by simp
    next
      case (chat_again tu m out c reply st')
      show ?thesis
      proof (cases reply)
        case (Inl e)
        then show ?thesis using True chat_again by simp
      next
        case (Inr resp')
        then show ?thesis using True chat_again Suc.IH[of st' _ resp']
          by auto
      qed
    qed
  qed
qed

lemma loop_failed_bridge_last:
  "trace (snd (loop n create post url st ms resp)) = trace st @ pre @ BridgeCall u b (Inl e) # rest \<Longrightarrow>
   rest = [] \<and> fst (loop n create post url st ms resp) = Some (Inl e)"
proof (induction n arbitrary: st ms resp pre)
  case 0
  then show ?case by (simp split: if_splits)
next
  case (Suc n)
  show ?case
  proof (cases "stop_reason resp = Some ''tool_use''")
    case False
    then show ?thesis using Suc.prems by simp
  next
    case True
    show ?thesis
    proof (cases rule: loop_body_cases[of create "post" url st ms resp])
      case (no_call e')
      then show ?thesis using True Suc.prems by simp
    next
      case (bridge_only tu m out e' st')
      have "[BridgeCall url (request_json m (conversation_id st)) out] = pre @ BridgeCall u b (Inl e) # rest"
        using True Suc.prems bridge_only(3,4) by simp
      then have "pre = [] \<and> rest = [] \<and> out = Inl e"
        by (cases pre) simp_all
      then show ?thesis using True bridge_only(3,5) by simp
    next
      case (chat_again tu m out c reply st')
      let ?ms' = "ms @ [\<lparr>role = ''assistant'', msg_content = Blocks (content resp)\<rparr>,
              \<lparr>role = ''user'', msg_content = ToolResults [\<lparr>tool_use_id = tu_id tu, result_content = c\<rparr>]\<rparr>]"
      let ?B = "BridgeCall url (request_json m (conversation_id st)) out"
      let ?C = "ChatCall (create_request ?ms') reply"
      have out: "out \<noteq> Inl e" using chat_again(5) by (cases out) simp_all
      show ?thesis
      proof (cases reply)
        case (Inl e')
        then have "[?B, ?C] = pre @ BridgeCall u b (Inl e) # rest"
          using True Suc.prems chat_again(3,4) by simp
        then have False using out
          by (cases pre; cases "tl pre") auto
        then show ?thesis ..
      next
        case (Inr resp')
        obtain es where es: "trace (snd (loop n create post url st' ?ms' resp')) = trace st' @ es"
          using loop_trace_prefix by blast
        have run: "loop (Suc n) create post url st ms resp = loop n create post url st' ?ms' resp'"
          using True chat_again(4) Inr by simp
        then have "?B # ?C # es = pre @ BridgeCall u b (Inl e) # rest"
          using Suc.prems es chat_again(3) by simp
        then obtain pre' where "pre = ?B # ?C # pre'" and "es = pre' @ BridgeCall u b (Inl e) # rest"
          using out by (cases pre; cases "tl pre") auto
        then have "trace (snd (loop n create post url st' ?ms' resp')) =
                     trace st' @ pre' @ BridgeCall u b (Inl e) # rest"
          using es by simp
        then show ?thesis using Suc.IH run by simp
      qed
    qed
  qed
qed

lemma first_text_None: "(\<forall>t. TextBlock t \<notin> set bs) \<Longrightarrow> first_text bs = None"
  by (induction bs rule: first_text.induct) auto

lemma loop_append_only:
  "trace st = pre @ es \<Longrightarrow> chat_calls es = cs @ [(create_request ms, Inr resp)] \<Longrightarrow>
   append_only (chat_calls es) \<Longrightarrow>
   \<exists>es'. trace (snd (loop n create post url st ms resp)) = pre @ es' \<and> append_only (chat_calls es')"
proof (induction n arbitrary: st ms resp es cs)
  case 0
  then show ?case by auto
next
  case (Suc n)
  show ?case
  proof (cases "stop_reason resp = Some ''tool_use''")
    case False
    then show ?thesis using Suc.prems by auto
  next
    case True
    show ?thesis
    proof (cases rule: loop_body_cases[of create "post" url st ms resp])
      case (no_call e)
      then show ?thesis using True Suc.prems by auto
    next
      case (bridge_only tu m out e st')
      then show ?thesis using True Suc.prems by (auto simp: chat_calls_append)
    next
      case (chat_again tu m out c reply st')
      let ?ms' = "ms @ [\<lparr>role = ''assistant'', msg_content = Blocks (content resp)\<rparr>,
              \<lparr>role = ''user'', msg_content = ToolResults [\<lparr>tool_use_id = tu_id tu, result_content = c\<rparr>]\<rparr>]"
      let ?es' = "es @ [BridgeCall url (request_json m (conversation_id st)) out,
          ChatCall (create_request ?ms') reply]"
      have tr: "trace st' = pre @ ?es'" using chat_again(3) Suc.prems(1) by simp
      have cc: "chat_calls ?es' = (cs @ [(create_request ms, Inr resp)]) @ [(create_request ?ms', reply)]"
        using Suc.prems(2) by (simp add: chat_calls_append)
      have grow: "tool_round_appended ms (Inr resp) ?ms'"
        using chat_again(1) by (simp add: tool_round_appended_def)
      have "append_only (chat_calls es @ [(create_request ?ms', reply)])"
        using Suc.prems(2,3) grow
        by (subst append_only_snoc) (simp add: create_request_def)
      then have ao: "append_only (chat_calls ?es')"
        by (simp add: chat_calls_append)
      show ?thesis
      proof (cases reply)
        case (Inl e)
        then show ?thesis using True chat_again(4) tr ao by auto
      next
        case (Inr resp')
        have cc': "chat_calls ?es' = (cs @ [(create_request ms, Inr resp)]) @ [(create_request ?ms', Inr resp')]"
          using cc Inr by simp
        have "\<exists>es''. trace (snd (loop n create post url st' ?ms' resp')) = pre @ es'' \<and> append_only (chat_calls es'')"
          by (rule Suc.IH[OF tr cc' ao])
        then show ?thesis using True chat_again(4) Inr by simp
      qed
    qed
  qed
qed

lemma call_david_gpt_http_error:
  assumes "post (world st) url (request_json m cid) = (Inr r, w')"
    and "400 \<le> status_code r" and "status_code r < 600"
  shows "call_david_gpt post url m cid st =
           (Inl (HTTPError (status_code r)),
            st\<lparr>world := w', trace := trace st @
               [BridgeCall url (request_json m cid) (Inl (HTTPError (status_code r)))]\<rparr>)"
  using assms by (simp add: call_david_gpt_def raise_for_status_def Let_def)

lemma first_tool_use_rename:
  "first_tool_use (map (rename_block f) bs) =
     map_option (\<lambda>tu. tu\<lparr>tu_name := f (tu_name tu)\<rparr>) (first_tool_use bs)"
  by (induction bs rule: first_tool_use.induct) auto

lemma bridge_calls_append: "bridge_calls (xs @ ys) = bridge_calls xs @ bridge_calls ys"
  by (induction xs rule: bridge_calls.induct) auto

lemmas rec_defs = recorded_create_def recorded_post_def

lemma loop_terminal:
  "stop_reason resp \<noteq> Some ''tool_use'' \<Longrightarrow>
   loop n create post url st ms resp = (Some (Inr (first_text (content resp))), st)"
  by (cases n) simp_all

lemma first_text_first:
  "\<forall>s. TextBlock s \<notin> set pre \<Longrightarrow> first_text (pre @ TextBlock t # rest) = Some t"
  by (induction pre rule: first_text.induct) auto

lemma loop_terminal_last:
  "trace (snd (loop n create post url st ms resp)) = trace st @ pre @ ChatCall req (Inr r) # rest \<Longrightarrow>
   stop_reason r \<noteq> Some ''tool_use'' \<Longrightarrow>
   rest = [] \<and> fst (loop n create post url st ms resp) = Some (Inr (first_text (content r)))"
proof (induction n arbitrary: st ms resp pre)
  case 0
  then show ?case by (simp split: if_splits)
next
  case (Suc n)
  show ?case
  proof (cases "stop_reason resp = Some ''tool_use''")
    case False
    then show ?thesis using Suc.prems by simp
  next
    case True
    show ?thesis
    proof (cases rule: loop_body_cases[of create "post" url st ms resp])
      case (no_call e')
      then show ?thesis using True Suc.prems by simp
    next
      case (bridge_only tu m out e' st')
      have "[BridgeCall url (request_json m (conversation_id st)) out] = pre @ ChatCall req (Inr r) # rest"
        using True Suc.prems bridge_only(3,4) by simp
      then have False by (cases pre) simp_all
      then show ?thesis ..
    next
      case (chat_again tu m out c reply st')
      let ?ms' = "ms @ [\<lparr>role = ''assistant'', msg_content = Blocks (content resp)\<rparr>,
              \<lparr>role = ''user'', msg_content = ToolResults [\<lparr>tool_use_id = tu_id tu, result_content = c\<rparr>]\<rparr>]"
      let ?B = "BridgeCall url (request_json m (conversation_id st)) out"
      let ?C = "ChatCall (create_request ?ms') reply"
      show ?thesis
      proof (cases reply)
        case (Inl e')
        then have "[?B, ?C] = pre @ ChatCall req (Inr r) # rest"
          using True Suc.prems chat_again(3,4) by simp
        then have False using Inl
          by (cases pre; cases "tl pre") auto
        then show ?thesis ..
      next
        case (Inr resp')
        obtain es where es: "trace (snd (loop n create post url st' ?ms' resp')) = trace st' @ es"
          using loop_trace_prefix by blast
        have run: "loop (Suc n) create post url st ms resp = loop n create post url st' ?ms' resp'"
          using True chat_again(4) Inr by simp
        then have eq: "?B # ?C # es = pre @ ChatCall req (Inr r) # rest"
          using Suc.prems(1) es chat_again(3) by simp
        then consider (here) "pre = [?B]" "r = resp'" "rest = es"
          | (later) pre' where "pre = ?B # ?C # pre'" "es = pre' @ ChatCall req (Inr r) # rest"
          using Inr by (cases pre; cases "tl pre") auto
        then show ?thesis
        proof cases
          case here
          have "loop n create post url st' ?ms' resp' = (Some (Inr (first_text (content resp'))), st')"
            using Suc.prems(2) here(2) by (simp add: loop_terminal)
          then show ?thesis using run es here by simp
        next
          case (later pre')
          then have "trace (snd (loop n create post url st' ?ms' resp')) =
                       trace st' @ pre' @ ChatCall req (Inr r) # rest"
            using es by simp
          then show ?thesis using Suc.IH Suc.prems(2) run by simp
        qed
      qed
    qed
  qed
qed

lemma chat_with_claude_terminal_last:
  assumes tr: "trace (snd (chat_with_claude n create post url st um)) =
                 trace st @ pre @ ChatCall req (Inr r) # rest"
    and fin: "stop_reason r \<noteq> Some ''tool_use''"
  shows "rest = [] \<and> fst (chat_with_claude n create post url st um) = Some (Inr (first_text (content r)))"
proof -
  let ?ms = "[\<lparr>role = ''user'', msg_content = Text um\<rparr>]"
  obtain reply w1 where cr: "create (world st) (create_request ?ms) = (reply, w1)"
    by (cases "create (world st) (create_request ?ms)")
  let ?C = "ChatCall (create_request ?ms) reply"
  let ?st1 = "st\<lparr>world := w1, trace := trace st @ [?C]\<rparr>"
  show ?thesis
  proof (cases reply)
    case (Inl e')
    then have "[?C] = pre @ ChatCall req (Inr r) # rest"
      using tr cr by (simp add: chat_with_claude_def)
    then have False using Inl by (cases pre) simp_all
    then show ?thesis ..
  next
    case (Inr resp)
    have run: "chat_with_claude n create post url st um = loop n create post url ?st1 ?ms resp"
      using cr Inr by (simp add: chat_with_claude_def Let_def)
    obtain es where es: "trace (snd (loop n create post url ?st1 ?ms resp)) = trace ?st1 @ es"
      using loop_trace_prefix by blast
    then have "?C # es = pre @ ChatCall req (Inr r) # rest"
      using tr run by simp
    then consider (here) "pre = []" "r = resp" "rest = es"
      | (later) pre' where "es = pre' @ ChatCall req (Inr r) # rest"
      using Inr by (cases pre) auto
    then show ?thesis
    proof cases
      case here
      have "loop n create post url ?st1 ?ms resp = (Some (Inr (first_text (content resp))), ?st1)"
        using fin here(2) by (simp add: loop_terminal)
      then show ?thesis using run es here by simp
    next
      case (later pre')
      then have "trace (snd (loop n create post url ?st1 ?ms resp)) =
                   trace ?st1 @ pre' @ ChatCall req (Inr r) # rest"
        using es by simp
      then show ?thesis using loop_terminal_last fin run by metis
    qed
  qed
qed

lemma same_call_chat_split:
  assumes "list_all2 same_call es (pre @ ChatReceived req reply # rest)"
  obtains pre' rest' where "es = pre' @ ChatCall req reply # rest'" "length rest' = length rest"
proof -
  from assms obtain pre' tl' where 1: "es = pre' @ tl'" "list_all2 same_call pre' pre"
    "list_all2 same_call tl' (ChatReceived req reply # rest)"
    by (auto simp: list_all2_append2)
  from 1(3) obtain x rest' where 2: "tl' = x # rest'" "same_call x (ChatReceived req reply)"
    "list_all2 same_call rest' rest"
    by (auto simp: list_all2_Cons2)
  from 2(2) have "x = ChatCall req reply" by (cases x) simp_all
  with 1 2 show ?thesis using that by (auto dest: list_all2_lengthD)
qed

lemma loop_round_log:
  fixes create :: "'w chat_service"
  assumes "stop_reason resp = Some ''tool_use''" "first_tool_use (content resp) = Some tu"
    "subscript (tu_input tu) ''message'' = Inr m"
  shows "\<exists>out rest.
        trace (snd (loop (Suc n) create post url st ms resp)) =
          trace st @ BridgeCall url (request_json m (conversation_id st)) out # rest \<and>
        (rest = [] \<or> (\<exists>req reply rest'. rest = ChatCall req reply # rest'))"
proof (cases rule: loop_body_cases[of create "post" url st ms resp])
  case (no_call e)
  then show ?thesis using assms by auto
next
  case (bridge_only tu' m' out e st')
  then show ?thesis using assms by simp
next
  case (chat_again tu' m' out c reply st')
  show ?thesis
  proof (cases reply)
    case (Inl e)
    then show ?thesis using assms chat_again by simp
  next
    case (Inr resp')
    obtain es where "trace (snd (loop n create post url st'
        (ms @ [\<lparr>role = ''assistant'', msg_content = Blocks (content resp)\<rparr>,
               \<lparr>role = ''user'',
                msg_content = ToolResults [\<lparr>tool_use_id = tu_id tu', result_content = c\<rparr>]\<rparr>])
        resp')) = trace st' @ es"
      using loop_trace_prefix by blast
    then show ?thesis using assms chat_again Inr by simp
  qed
qed

lemma exchange_log_append_only:
  "take (length (trace st)) (trace (snd (chat_with_claude n create post url st user_message)))
     = trace st \<and>
   append_only (chat_calls
     (drop (length (trace st)) (trace (snd (chat_with_claude n create post url st user_message)))))"
proof -
  let ?ms = "[\<lparr>role = ''user'', msg_content = Text user_message\<rparr>]"
  obtain reply w' where cr: "create (world st) (create_request ?ms) = (reply, w')"
    by (cases "create (world st) (create_request ?ms)")
  let ?st' = "st\<lparr>world := w', trace := trace st @ [ChatCall (create_request ?ms) reply]\<rparr>"
  show ?thesis
  proof (cases reply)
    case (Inl e)
    then show ?thesis using cr by (simp add: chat_with_claude_def)
  next
    case (Inr resp)
    have "\<exists>es'. trace (snd (loop n create post url ?st' ?ms resp)) = trace st @ es' \<and>
                append_only (chat_calls es')"
      by (rule loop_append_only[where es = "[ChatCall (create_request ?ms) reply]" and cs = "[]"])
         (simp_all add: Inr)
    then show ?thesis using cr Inr by (auto simp add: chat_with_claude_def Let_def)
  qed
qed

subsection \<open>The log is what the services received\<close>

lemma synced_fromI:
  "trace st' = trace st @ es \<Longrightarrow> snd (world st') = snd (world st) @ rs \<Longrightarrow>
   list_all2 same_call es rs \<Longrightarrow> synced_from st st'"
  by (simp add: synced_from_def)

lemma synced_fromE:
  assumes "synced_from st st'"
  obtains es rs where "trace st' = trace st @ es" "snd (world st') = snd (world st) @ rs"
    "list_all2 same_call es rs"
proof -
  let ?es = "drop (length (trace st)) (trace st')"
  let ?rs = "drop (length (snd (world st))) (snd (world st'))"
  have "trace st' = trace st @ ?es"
    using assms by (metis append_take_drop_id synced_from_def)
  moreover have "snd (world st') = snd (world st) @ ?rs"
    using assms by (metis append_take_drop_id synced_from_def)
  moreover have "list_all2 same_call ?es ?rs" using assms by (simp add: synced_from_def)
  ultimately show ?thesis using that by blast
qed

lemma synced_refl: "synced_from st st"
  by (simp add: synced_from_def)

lemma synced_trans: "synced_from a b \<Longrightarrow> synced_from b c \<Longrightarrow> synced_from a c"
proof -
  assume ab: "synced_from a b" and bc: "synced_from b c"
  from ab obtain es rs where 1: "trace b = trace a @ es" "snd (world b) = snd (world a) @ rs"
    "list_all2 same_call es rs" by (rule synced_fromE)
  from bc obtain es' rs' where 2: "trace c = trace b @ es'" "snd (world c) = snd (world b) @ rs'"
    "list_all2 same_call es' rs'" by (rule synced_fromE)
  show ?thesis
    by (rule synced_fromI[of _ _ "es @ es'" "rs @ rs'"])
       (use 1 2 in \<open>simp_all add: list_all2_appendI\<close>)
qed

lemma synced_conversation_id:
  "synced_from st st' \<Longrightarrow> synced_from st (st'\<lparr>conversation_id := c\<rparr>)"
  by (simp add: synced_from_def)

lemma synced_bridge:
  "synced_from st (after_bridge (recorded_post post) url m st)"
proof -
  let ?call = "call_david_gpt (recorded_post post) url m (conversation_id st) st"
  have "synced_from st (snd ?call)"
    by (rule synced_fromI[of _ _ "[BridgeCall url (request_json m (conversation_id st)) (fst ?call)]"
          "[PostReceived url (request_json m (conversation_id st))
              (fst (post (fst (world st)) url (request_json m (conversation_id st))))]"])
       (simp_all add: call_david_gpt_state recorded_post_def Let_def split: prod.splits)
  then show ?thesis
    by (simp add: after_bridge_def Let_def synced_conversation_id split: option.splits)
qed

lemma synced_chat:
  assumes "synced_from st s" and "recorded_create create (world s) req = (reply, w')"
  shows "synced_from st (s\<lparr>world := w', trace := trace s @ [ChatCall req reply]\<rparr>)"
proof -
  have "synced_from s (s\<lparr>world := w', trace := trace s @ [ChatCall req reply]\<rparr>)"
    by (rule synced_fromI[of _ _ "[ChatCall req reply]" "[ChatReceived req reply]"])
       (use assms(2) in \<open>auto simp: recorded_create_def Let_def split: prod.splits\<close>)
  with assms(1) show ?thesis by (rule synced_trans)
qed

lemma loop_body_synced:
  "synced_from st (snd (loop_body (recorded_create create) (recorded_post post) url st ms resp))"
proof (cases "first_tool_use (content resp)")
  case None
  then show ?thesis by (simp add: loop_body_def synced_refl)
next
  case (Some tu)
  show ?thesis
  proof (cases "subscript (tu_input tu) ''message''")
    case (Inl e)
    then show ?thesis using Some by (simp add: loop_body_def synced_refl)
  next
    case (Inr m)
    have ab: "synced_from st (after_bridge (recorded_post post) url m st)" by (rule synced_bridge)
    show ?thesis
    proof (cases "call_david_gpt (recorded_post post) url m (conversation_id st) st")
      case (Pair out st1)
      show ?thesis
      proof (cases out)
        case (Inl e)
        then show ?thesis using Some Inr Pair ab
          by (simp add: loop_body_def after_bridge_def)
      next
        case res: (Inr result)
        then show ?thesis using Some Inr Pair ab synced_chat[OF ab]
          by (auto simp add: loop_body_def after_bridge_def Let_def
                split: sum.splits prod.splits if_splits)
      qed
    qed
  qed
qed

lemma loop_synced:
  "synced_from st (snd (loop n (recorded_create create) (recorded_post post) url st ms resp))"
proof (induction n arbitrary: st ms resp)
  case 0
  then show ?case by (simp add: synced_refl)
next
  case (Suc n)
  have body: "synced_from st (snd (loop_body (recorded_create create) (recorded_post post) url st ms resp))"
    by (rule loop_body_synced)
  show ?case
  proof (cases "loop_body (recorded_create create) (recorded_post post) url st ms resp")
    case (Pair r st')
    with body have st': "synced_from st st'" by simp
    show ?thesis
    proof (cases r)
      case (Inl e)
      then show ?thesis using Pair st' by (simp add: synced_refl)
    next
      case (Inr p)
      obtain ms' resp' where p: "p = (ms', resp')" by (cases p)
      have "synced_from st (snd (loop n (recorded_create create) (recorded_post post) url st' ms' resp'))"
        using st' Suc.IH by (rule synced_trans)
      then show ?thesis using Pair Inr p by (simp add: synced_refl)
    qed
  qed
qed

lemma chat_with_claude_synced:
  "synced_from st (snd (chat_with_claude n (recorded_create create) (recorded_post post) url st um))"
proof -
  let ?req = "create_request [\<lparr>role = ''user'', msg_content = Text um\<rparr>]"
  obtain reply w' where cr: "recorded_create create (world st) ?req = (reply, w')"
    by (cases "recorded_create create (world st) ?req")
  let ?st' = "st\<lparr>world := w', trace := trace st @ [ChatCall ?req reply]\<rparr>"
  have s1: "synced_from st ?st'" by (rule synced_chat[OF synced_refl cr])
  show ?thesis
  proof (cases reply)
    case (Inl e)
    then show ?thesis using cr s1 by (simp add: chat_with_claude_def)
  next
    case (Inr resp)
    have "synced_from st (snd (loop n (recorded_create create) (recorded_post post) url ?st'
            [\<lparr>role = ''user'', msg_content = Text um\<rparr>] resp))"
      using s1 loop_synced by (rule synced_trans)
    then show ?thesis using cr Inr by (simp add: chat_with_claude_def Let_def)
  qed
qed

lemma exchanges_synced:
  "synced_from st (snd (exchanges n (recorded_create create) (recorded_post post) url st ums))"
proof (induction ums arbitrary: st)
  case Nil
  then show ?case by (simp add: synced_refl)
next
  case (Cons m ums)
  have "synced_from st (snd (chat_with_claude n (recorded_create create) (recorded_post post) url st m))"
    by (rule chat_with_claude_synced)
  then show ?case using Cons.IH
    by (auto split: prod.splits option.splits sum.splits intro: synced_trans)
qed

lemma same_call_chats: "list_all2 same_call es rs \<Longrightarrow> chat_calls es = received_chats rs"
proof (induction es rs rule: list_all2_induct)
  case Nil
  then show ?case by simp
next
  case (Cons e es r rs)
  then show ?case by (cases e; cases r) simp_all
qed

lemma same_call_first_post:
  "list_all2 same_call es rs \<Longrightarrow> first_bridge_body es = first_post_body rs"
proof (induction es rs rule: list_all2_induct)
  case Nil
  then show ?case by simp
next
  case (Cons e es r rs)
  then show ?case by (cases e; cases r) simp_all
qed

lemma same_call_round_shape:
  assumes "list_all2 same_call (BridgeCall url body out # rest_e) rs"
    and "rest_e = [] \<or> (\<exists>req reply t. rest_e = ChatCall req reply # t)"
  shows "\<exists>hr rest. rs = PostReceived url body hr # rest \<and>
           (rest = [] \<or> (\<exists>req reply t. rest = ChatReceived req reply # t))"
proof -
  from assms(1) obtain r rest where rs: "rs = r # rest"
    "same_call (BridgeCall url body out) r" "list_all2 same_call rest_e rest"
    by (auto simp: list_all2_Cons1)
  from rs(2) obtain hr where r: "r = PostReceived url body hr" by (cases r) auto
  from assms(2) have "rest = [] \<or> (\<exists>req reply t. rest = ChatReceived req reply # t)"
  proof
    assume "rest_e = []"
    then show ?thesis using rs(3) by simp
  next
    assume "\<exists>req reply t. rest_e = ChatCall req reply # t"
    then obtain req reply t where "rest_e = ChatCall req reply # t" by blast
    then obtain x t' where "rest = x # t'" "same_call (ChatCall req reply) x"
      using rs(3) by (auto simp: list_all2_Cons1)
    then show ?thesis by (cases x) auto
  qed
  then show ?thesis using rs(1) r by blast
qed

lemma loop_round_received:
  assumes "stop_reason resp = Some ''tool_use''" "first_tool_use (content resp) = Some tu"
    "subscript (tu_input tu) ''message'' = Inr m"
  shows "\<exists>hr rest.
        snd (world (snd (loop (Suc n) (recorded_create create) (recorded_post post) url st ms resp))) =
          snd (world st) @ PostReceived url (request_json m (conversation_id st)) hr # rest \<and>
        (rest = [] \<or> (\<exists>req reply rest'. rest = ChatReceived req reply # rest'))"
proof -
  let ?st' = "snd (loop (Suc n) (recorded_create create) (recorded_post post) url st ms resp)"
  obtain out rest_e where log: "trace ?st' =
      trace st @ BridgeCall url (request_json m (conversation_id st)) out # rest_e"
    "rest_e = [] \<or> (\<exists>req reply t. rest_e = ChatCall req reply # t)"
    using loop_round_log[OF assms] by blast
  obtain es rs where s: "trace ?st' = trace st @ es" "snd (world ?st') = snd (world st) @ rs"
    "list_all2 same_call es rs"
    using loop_synced by (rule synced_fromE)
  have "es = BridgeCall url (request_json m (conversation_id st)) out # rest_e"
    using log(1) s(1) by simp
  then show ?thesis using same_call_round_shape[OF _ log(2)] s(2,3) by blast
qed

section \<open>The claims\<close>

subsection \<open>Terminal responses\<close>

text \<open>
  C1. When the chat service answers a request of \<^verbatim>\<open>chat_with_claude\<close> with a response
  whose stop reason is not \<^verbatim>\<open>"tool_use"\<close>, \<^verbatim>\<open>chat_with_claude\<close> returns the text of
  the first text block of that response and calls nothing after receiving it. First for
  the answer to the opening request: the result is that text, the world is the one the
  chat service left, and the log has the one chat call. Then for an answer at any point
  of the exchange, with the services recording what they receive: the terminal answer
  is the last thing either service saw, and its first text is what is returned.
\<close>

theorem terminal_response_returns_first_text:
  "(create (world st) (create_request [\<lparr>role = ''user'', msg_content = Text user_message\<rparr>]) = (Inr resp, w') \<and>
    stop_reason resp \<noteq> Some ''tool_use'' \<and>
    content resp = bs @ TextBlock t # bs' \<and> (\<forall>s. TextBlock s \<notin> set bs) \<longrightarrow>
      chat_with_claude n create post url st user_message =
        (Some (Inr (Some t)),
         st\<lparr>world := w',
            trace := trace st @
              [ChatCall (create_request [\<lparr>role = ''user'', msg_content = Text user_message\<rparr>])
                 (Inr resp)]\<rparr>)) \<and>
   (snd (world (snd (chat_with_claude k (recorded_create service) (recorded_post bridge) url' sr um))) =
      snd (world sr) @ pre @ ChatReceived req (Inr r) # rest \<and>
    stop_reason r \<noteq> Some ''tool_use'' \<and>
    content r = cs @ TextBlock t' # cs' \<and> (\<forall>s. TextBlock s \<notin> set cs) \<longrightarrow>
      rest = [] \<and>
      fst (chat_with_claude k (recorded_create service) (recorded_post bridge) url' sr um) =
        Some (Inr (Some t')))"
proof (rule conjI; rule impI)
  assume h: "create (world st) (create_request [\<lparr>role = ''user'', msg_content = Text user_message\<rparr>]) = (Inr resp, w') \<and>
    stop_reason resp \<noteq> Some ''tool_use'' \<and>
    content resp = bs @ TextBlock t # bs' \<and> (\<forall>s. TextBlock s \<notin> set bs)"
  then have "first_text (content resp) = Some t" by (simp add: first_text_first)
  then show "chat_with_claude n create post url st user_message =
        (Some (Inr (Some t)),
         st\<lparr>world := w',
            trace := trace st @
              [ChatCall (create_request [\<lparr>role = ''user'', msg_content = Text user_message\<rparr>])
                 (Inr resp)]\<rparr>)"
    using h by (simp add: chat_with_claude_def loop_terminal)
next
  let ?run = "chat_with_claude k (recorded_create service) (recorded_post bridge) url' sr um"
  assume h: "snd (world (snd ?run)) = snd (world sr) @ pre @ ChatReceived req (Inr r) # rest \<and>
    stop_reason r \<noteq> Some ''tool_use'' \<and>
    content r = cs @ TextBlock t' # cs' \<and> (\<forall>s. TextBlock s \<notin> set cs)"
  obtain es rs where s: "trace (snd ?run) = trace sr @ es" "snd (world (snd ?run)) = snd (world sr) @ rs"
    "list_all2 same_call es rs"
    using chat_with_claude_synced by (rule synced_fromE)
  have "rs = pre @ ChatReceived req (Inr r) # rest" using h s(2) by simp
  then obtain pre_e rest_e where es: "es = pre_e @ ChatCall req (Inr r) # rest_e"
    "length rest_e = length rest"
    using s(3) same_call_chat_split by metis
  have "rest_e = [] \<and> fst ?run = Some (Inr (first_text (content r)))"
    by (rule chat_with_claude_terminal_last[of _ _ _ _ _ _ pre_e req r rest_e])
       (use s(1) es(1) h in simp_all)
  moreover have "first_text (content r) = Some t'" using h by (simp add: first_text_first)
  ultimately show "rest = [] \<and> fst ?run = Some (Inr (Some t'))"
    using es(2) by simp
qed

theorem terminal_response_returns_first_text_witness:
  "chat_with_claude 0 scripted_create scripted_post ''http://bridge''
     (initial_state ([Inr \<lparr>stop_reason = Some ''end_turn'',
                          content = [OtherBlock, TextBlock ''hello'', TextBlock ''bye'']\<rparr>],
                     snd ping_script)) ''hi''
   = (Some (Inr (Some ''hello'')),
      \<lparr>conversation_id = JNull,
       trace = [ChatCall (create_request [\<lparr>role = ''user'', msg_content = Text ''hi''\<rparr>])
                  (Inr \<lparr>stop_reason = Some ''end_turn'',
                        content = [OtherBlock, TextBlock ''hello'', TextBlock ''bye'']\<rparr>)],
       world = ([], snd ping_script)\<rparr>) \<and>
   fst (chat_with_claude (Suc 0) (recorded_create scripted_create) (recorded_post scripted_post)
          ''http://bridge'' (initial_state (ping_script, [])) ''ping'')
   = Some (Inr (Some ''pong received'')) \<and>
   length (snd (world (snd (chat_with_claude (Suc 0) (recorded_create scripted_create)
          (recorded_post scripted_post) ''http://bridge'' (initial_state (ping_script, [])) ''ping''))))
   = 3"
  using terminal_response_returns_first_text
    [where create = scripted_create and post = scripted_post and url = "''http://bridge''"
       and st = "initial_state ([Inr \<lparr>stop_reason = Some ''end_turn'',
                          content = [OtherBlock, TextBlock ''hello'', TextBlock ''bye'']\<rparr>],
                     snd ping_script)"
       and user_message = "''hi''"
       and resp = "\<lparr>stop_reason = Some ''end_turn'',
                          content = [OtherBlock, TextBlock ''hello'', TextBlock ''bye'']\<rparr>"
       and w' = "([], snd ping_script)" and bs = "[OtherBlock]" and t = "''hello''"
       and bs' = "[TextBlock ''bye'']" and n = 0
       and k = "Suc 0" and service = scripted_create and bridge = scripted_post
       and url' = "''http://bridge''" and sr = "initial_state (ping_script, [])" and um = "''ping''"
       and pre = "[ChatReceived (create_request [\<lparr>role = ''user'', msg_content = Text ''ping''\<rparr>])
                     (Inr ping_request),
                   PostReceived ''http://bridge''
                     (JObj [(''action'', JStr ''new_conversation''), (''message'', JStr ''ping''),
                            (''persona'', JStr ''david'')])
                     (Inr (bridge_reply 200
                        [(''conversation_id'', JStr ''c1''), (''response'', JStr ''pong''),
                         (''citations'', JArr [])]))]"
       and req = "create_request
          [\<lparr>role = ''user'', msg_content = Text ''ping''\<rparr>,
           \<lparr>role = ''assistant'', msg_content = Blocks (content ping_request)\<rparr>,
           \<lparr>role = ''user'', msg_content = ToolResults
              [\<lparr>tool_use_id = ''toolu_1'', result_content = JStr ''pong''\<rparr>]\<rparr>]"
       and r = "final_answer ''pong received''" and rest = "[]"
       and cs = "[]" and t' = "''pong received''" and cs' = "[]"]
  by (simp add: run_defs rec_defs ping_script_def)

text \<open>
  C10. For a chat response whose stop reason is not \<^verbatim>\<open>"tool_use"\<close> the loop always
  returns a value, an optional text, and raises nothing; when no block of the response
  is a text block the value is \<^verbatim>\<open>None\<close>.
\<close>

theorem terminal_response_optional_text:
  assumes "stop_reason resp \<noteq> Some ''tool_use''"
  shows "(\<exists>final_text. loop n create post url st ms resp = (Some (Inr final_text), st)) \<and>
         ((\<forall>t. TextBlock t \<notin> set (content resp)) \<longrightarrow>
            loop n create post url st ms resp = (Some (Inr None), st))"
  using assms by (cases n) (simp_all add: first_text_None)

theorem terminal_response_optional_text_witness:
  "loop (Suc 0) scripted_create scripted_post ''http://bridge'' (initial_state ping_script) []
     \<lparr>stop_reason = Some ''max_tokens'', content = [OtherBlock]\<rparr>
   = (Some (Inr None), initial_state ping_script)"
  using terminal_response_optional_text
    [where resp = "\<lparr>stop_reason = Some ''max_tokens'', content = [OtherBlock]\<rparr>"
       and n = "Suc 0" and create = scripted_create and post = scripted_post
       and url = "''http://bridge''" and st = "initial_state ping_script" and ms = "[]"]
  by simp

subsection \<open>The bridge request\<close>

text \<open>
  C7. \<^verbatim>\<open>call_david_gpt\<close> makes one POST to the bridge URL. Given a conversation
  identifier (a value true in Python's sense, so not \<^verbatim>\<open>None\<close> and not empty) the body
  is action \<^verbatim>\<open>reply_to_conversation\<close>, that identifier and the message; given none
  it is action \<^verbatim>\<open>new_conversation\<close>, the message and persona \<^verbatim>\<open>david\<close>. When the
  bridge answers with a status that does not raise and a JSON object, the returned
  record takes \<^verbatim>\<open>conversation_id\<close> and \<^verbatim>\<open>response\<close> from the object, \<^verbatim>\<open>None\<close>
  when absent, and \<^verbatim>\<open>citations\<close> from the object, the empty list when absent.
\<close>

theorem call_david_gpt_request_and_result:
  "trace (snd (call_david_gpt post url message cid st)) =
     trace st @
       [BridgeCall url
          (if truthy cid then
             JObj [(''action'', JStr ''reply_to_conversation''),
                   (''conversation_id'', cid),
                   (''message'', message)]
           else
             JObj [(''action'', JStr ''new_conversation''),
                   (''message'', message),
                   (''persona'', JStr ''david'')])
          (fst (call_david_gpt post url message cid st))] \<and>
   (\<forall>r w' data.
      post (world st) url (request_json message cid) = (Inr r, w') \<and>
      raise_for_status r = Inr () \<and> json_body r = Some (JObj data) \<longrightarrow>
      fst (call_david_gpt post url message cid st) =
        Inr \<lparr>result_conversation_id =
               (case map_of data ''conversation_id'' of None \<Rightarrow> JNull | Some v \<Rightarrow> v),
             result_response =
               (case map_of data ''response'' of None \<Rightarrow> JNull | Some v \<Rightarrow> v),
             result_citations =
               (case map_of data ''citations'' of None \<Rightarrow> JArr [] | Some v \<Rightarrow> v)\<rparr>)"
  by (auto simp: call_david_gpt_def request_json_def dict_get_def Let_def split: prod.splits)

theorem call_david_gpt_request_and_result_witness:
  "call_david_gpt scripted_post ''http://bridge'' (JStr ''more'') (JStr ''c1'')
     (initial_state ([], [Inr (bridge_reply 200 [(''response'', JStr ''details'')])]))
   = (Inr \<lparr>result_conversation_id = JNull, result_response = JStr ''details'',
           result_citations = JArr []\<rparr>,
      \<lparr>conversation_id = JNull,
       trace = [BridgeCall ''http://bridge''
                  (JObj [(''action'', JStr ''reply_to_conversation''),
                         (''conversation_id'', JStr ''c1''),
                         (''message'', JStr ''more'')])
                  (Inr \<lparr>result_conversation_id = JNull, result_response = JStr ''details'',
                        result_citations = JArr []\<rparr>)],
       world = ([], [])\<rparr>)"
  using call_david_gpt_request_and_result
    [where post = scripted_post and url = "''http://bridge''" and message = "JStr ''more''"
       and cid = "JStr ''c1''"
       and st = "initial_state ([], [Inr (bridge_reply 200 [(''response'', JStr ''details'')])])"]
  by (simp add: run_defs)

subsection \<open>Start-up\<close>

text \<open>
  C8. When the environment has no \<^verbatim>\<open>ANTHROPIC_API_KEY\<close>, the program raises
  ValueError from the module body: the log of calls is empty and the world is the one
  the program started in, so no request has gone to the chat service or to the bridge.
\<close>

theorem missing_credential_fatal_at_startup:
  assumes "env ''ANTHROPIC_API_KEY'' = None"
  shows "fst (program n Anthropic post env w) = Some (Inl ValueError) \<and>
         trace (snd (program n Anthropic post env w)) = [] \<and>
         world (snd (program n Anthropic post env w)) = w"
  using assms by (simp add: program_def initial_state_def)

theorem missing_credential_fatal_at_startup_witness:
  "fst (program (Suc 0) (\<lambda>key. scripted_create) scripted_post
          [''MCP_BRIDGE_URL'' \<mapsto> ''http://bridge''] ping_script) = Some (Inl ValueError) \<and>
   trace (snd (program (Suc 0) (\<lambda>key. scripted_create) scripted_post
          [''MCP_BRIDGE_URL'' \<mapsto> ''http://bridge''] ping_script)) = [] \<and>
   world (snd (program (Suc 0) (\<lambda>key. scripted_create) scripted_post
          [''MCP_BRIDGE_URL'' \<mapsto> ''http://bridge''] ping_script)) = ping_script"
  using missing_credential_fatal_at_startup
    [where env = "[''MCP_BRIDGE_URL'' \<mapsto> ''http://bridge'']" and n = "Suc 0"
       and Anthropic = "\<lambda>key. scripted_create" and post = scripted_post and w = ping_script]
  by simp

subsection \<open>Tool rounds\<close>

text \<open>
  C2 as stated fails: a response may have stop reason \<^verbatim>\<open>"tool_use"\<close> and no tool-use
  block. Line 111 then raises StopIteration; the bridge is never called (its scripted
  reply is still unused) and the chat service is not called again.
\<close>

theorem tool_use_without_tool_block_raises:
  "chat_with_claude (Suc 0) scripted_create scripted_post ''http://bridge''
     (initial_state no_tool_block_script) ''ping''
   = (Some (Inl StopIteration),
      \<lparr>conversation_id = JNull,
       trace = [ChatCall (create_request [\<lparr>role = ''user'', msg_content = Text ''ping''\<rparr>])
                  (Inr \<lparr>stop_reason = Some ''tool_use'',
                        content = [TextBlock ''let me look that up'']\<rparr>)],
       world = ([Inr (final_answer ''never asked for'')],
                [Inr (bridge_reply 200 [(''response'', JStr ''pong'')])])\<rparr>)"
  by (simp add: run_defs no_tool_block_script_def)

text \<open>
  C2, amended. Take a chat response with stop reason \<^verbatim>\<open>"tool_use"\<close> whose first
  tool-use block has an input with a \<^verbatim>\<open>message\<close> field, and let the services record
  what they receive. In any round of the loop, and so too in the first round of
  \<^verbatim>\<open>chat_with_claude\<close>, the next request either service receives is one bridge
  request built from that message and the session identifier held at that moment, and
  the request after it, if there is one, goes to the chat service: the bridge is called
  exactly once before the chat service is called again. In a process run, which starts
  with the session identifier \<^verbatim>\<open>None\<close>, the first bridge request received carries no
  conversation identifier.
\<close>

theorem tool_request_calls_bridge_once:
  "(stop_reason resp = Some ''tool_use'' \<and> first_tool_use (content resp) = Some tu \<and>
    subscript (tu_input tu) ''message'' = Inr m \<longrightarrow>
     (\<exists>hr rest.
        snd (world (snd (loop (Suc n) (recorded_create create) (recorded_post post) url st ms resp))) =
          snd (world st) @ PostReceived url (request_json m (conversation_id st)) hr # rest \<and>
        (rest = [] \<or> (\<exists>req reply rest'. rest = ChatReceived req reply # rest')))) \<and>
   (create (fst (world st)) (create_request [\<lparr>role = ''user'', msg_content = Text user_message\<rparr>])
      = (Inr resp, wc) \<and>
    stop_reason resp = Some ''tool_use'' \<and> first_tool_use (content resp) = Some tu \<and>
    subscript (tu_input tu) ''message'' = Inr m \<longrightarrow>
     (\<exists>hr rest.
        snd (world (snd (chat_with_claude (Suc n) (recorded_create create) (recorded_post post) url st
                           user_message))) =
          snd (world st) @
            ChatReceived (create_request [\<lparr>role = ''user'', msg_content = Text user_message\<rparr>])
              (Inr resp) #
            PostReceived url (request_json m (conversation_id st)) hr # rest \<and>
        (rest = [] \<or> (\<exists>req reply rest'. rest = ChatReceived req reply # rest')))) \<and>
   (\<forall>body.
      first_post_body (snd (world (snd (exchanges k (recorded_create create) (recorded_post post) url
                                          (initial_state (w, [])) ums)))) = Some body
      \<longrightarrow> sent_id body = None)"
proof (intro conjI impI allI)
  assume "stop_reason resp = Some ''tool_use'' \<and> first_tool_use (content resp) = Some tu \<and>
    subscript (tu_input tu) ''message'' = Inr m"
  then show "\<exists>hr rest.
        snd (world (snd (loop (Suc n) (recorded_create create) (recorded_post post) url st ms resp))) =
          snd (world st) @ PostReceived url (request_json m (conversation_id st)) hr # rest \<and>
        (rest = [] \<or> (\<exists>req reply rest'. rest = ChatReceived req reply # rest'))"
    using loop_round_received by blast
next
  let ?ms = "[\<lparr>role = ''user'', msg_content = Text user_message\<rparr>]"
  assume h: "create (fst (world st)) (create_request ?ms) = (Inr resp, wc) \<and>
    stop_reason resp = Some ''tool_use'' \<and> first_tool_use (content resp) = Some tu \<and>
    subscript (tu_input tu) ''message'' = Inr m"
  let ?st1 = "st\<lparr>world := (wc, snd (world st) @ [ChatReceived (create_request ?ms) (Inr resp)]),
                 trace := trace st @ [ChatCall (create_request ?ms) (Inr resp)]\<rparr>"
  have run: "chat_with_claude (Suc n) (recorded_create create) (recorded_post post) url st user_message
               = loop (Suc n) (recorded_create create) (recorded_post post) url ?st1 ?ms resp"
    using h by (simp add: chat_with_claude_def recorded_create_def Let_def del: loop.simps)
  obtain hr rest where
    "snd (world (snd (loop (Suc n) (recorded_create create) (recorded_post post) url ?st1 ?ms resp))) =
       snd (world ?st1) @ PostReceived url (request_json m (conversation_id ?st1)) hr # rest"
    "rest = [] \<or> (\<exists>req reply rest'. rest = ChatReceived req reply # rest')"
    using loop_round_received[of resp tu m n create "post" url ?st1 ?ms] h by blast
  then show "\<exists>hr rest.
        snd (world (snd (chat_with_claude (Suc n) (recorded_create create) (recorded_post post) url st
                           user_message))) =
          snd (world st) @
            ChatReceived (create_request ?ms) (Inr resp) #
            PostReceived url (request_json m (conversation_id st)) hr # rest \<and>
        (rest = [] \<or> (\<exists>req reply rest'. rest = ChatReceived req reply # rest'))"
    using run by simp
next
  fix body
  let ?st' = "snd (exchanges k (recorded_create create) (recorded_post post) url (initial_state (w, [])) ums)"
  assume fp: "first_post_body (snd (world ?st')) = Some body"
  have "synced_from (initial_state (w, [])) ?st'"
    by (rule exchanges_synced)
  then have "list_all2 same_call (trace ?st') (snd (world ?st'))"
    by (simp add: synced_from_def initial_state_def)
  then have "first_bridge_body (trace ?st') = first_post_body (snd (world ?st'))"
    by (rule same_call_first_post)
  moreover have "ids_follow None (trace ?st')"
    using exchanges_inv[OF initial_state_inv, of k "recorded_create create" "recorded_post post" url "(w, [])" ums]
    by (simp add: session_inv_def)
  ultimately show "sent_id body = None"
    using fp first_bridge_body_follow by metis
qed

theorem tool_request_calls_bridge_once_witness:
  "snd (world (snd (chat_with_claude (Suc 0) (recorded_create scripted_create)
       (recorded_post scripted_post) ''http://bridge'' (initial_state (ping_script, [])) ''ping'')))
   = [ChatReceived (create_request [\<lparr>role = ''user'', msg_content = Text ''ping''\<rparr>])
        (Inr ping_request),
      PostReceived ''http://bridge''
        (JObj [(''action'', JStr ''new_conversation''), (''message'', JStr ''ping''),
               (''persona'', JStr ''david'')])
        (Inr (bridge_reply 200
           [(''conversation_id'', JStr ''c1''), (''response'', JStr ''pong''),
            (''citations'', JArr [])])),
      ChatReceived (create_request
          [\<lparr>role = ''user'', msg_content = Text ''ping''\<rparr>,
           \<lparr>role = ''assistant'', msg_content = Blocks (content ping_request)\<rparr>,
           \<lparr>role = ''user'', msg_content = ToolResults
              [\<lparr>tool_use_id = ''toolu_1'', result_content = JStr ''pong''\<rparr>]\<rparr>])
        (Inr (final_answer ''pong received''))] \<and>
   first_post_body (snd (world (snd (exchanges (Suc 0) (recorded_create scripted_create)
       (recorded_post scripted_post) ''http://bridge'' (initial_state (ping_script, [])) [''ping'']))))
   = Some (JObj [(''action'', JStr ''new_conversation''), (''message'', JStr ''ping''),
                 (''persona'', JStr ''david'')]) \<and>
   sent_id (JObj [(''action'', JStr ''new_conversation''), (''message'', JStr ''ping''),
                  (''persona'', JStr ''david'')]) = None"
  using tool_request_calls_bridge_once
    [where resp = ping_request
       and tu = "\<lparr>tu_id = ''toolu_1'', tu_name = ''ask_david_gpt'',
                  tu_input = JObj [(''message'', JStr ''ping'')]\<rparr>"
       and m = "JStr ''ping''" and n = 0 and k = "Suc 0"
       and create = scripted_create and post = scripted_post and url = "''http://bridge''"
       and st = "initial_state (ping_script, [])" and user_message = "''ping''"
       and ms = "[\<lparr>role = ''user'', msg_content = Text ''ping''\<rparr>]"
       and wc = "([Inr (final_answer ''pong received'')], snd ping_script)"
       and w = ping_script and ums = "[''ping'']"]
  by (simp add: run_defs rec_defs ping_script_def)

text \<open>
  C6. The round does not look at the name of the tool. Renaming the tool-use blocks of
  a chat response in any way changes neither the bridge calls of the round that
  answers it (request and outcome) nor the session identifier after the round.
\<close>

theorem dispatch_ignores_tool_name:
  "bridge_calls (trace (snd (loop_body create post url st ms (rename_tools f resp)))) =
     bridge_calls (trace (snd (loop_body create post url st ms resp))) \<and>
   conversation_id (snd (loop_body create post url st ms (rename_tools f resp))) =
     conversation_id (snd (loop_body create post url st ms resp))"
proof (cases "first_tool_use (content resp)")
  case None
  then show ?thesis
    by (simp add: loop_body_def rename_tools_def first_tool_use_rename)
next
  case (Some tu)
  show ?thesis
  proof (cases "subscript (tu_input tu) ''message''")
    case (Inl e)
    then show ?thesis using Some
      by (simp add: loop_body_def rename_tools_def first_tool_use_rename)
  next
    case (Inr m)
    obtain out st1 where call: "call_david_gpt post url m (conversation_id st) st = (out, st1)"
      by (cases "call_david_gpt post url m (conversation_id st) st")
    show ?thesis
    proof (cases out)
      case (Inl e)
      then show ?thesis using Some Inr call
        by (simp add: loop_body_def rename_tools_def first_tool_use_rename)
    next
      case res: (Inr result)
      then show ?thesis using Some Inr call
        by (simp add: loop_body_def rename_tools_def first_tool_use_rename Let_def
              bridge_calls_append split: sum.splits prod.splits)
    qed
  qed
qed

theorem dispatch_ignores_tool_name_witness:
  "bridge_calls (trace (snd (loop_body scripted_create scripted_post ''http://bridge''
       (initial_state ([Inr (final_answer ''pong received'')], snd ping_script))
       [\<lparr>role = ''user'', msg_content = Text ''ping''\<rparr>]
       (rename_tools (\<lambda>nm. ''delete_everything'') ping_request))))
   = [(JObj [(''action'', JStr ''new_conversation''), (''message'', JStr ''ping''),
             (''persona'', JStr ''david'')],
       Inr \<lparr>result_conversation_id = JStr ''c1'', result_response = JStr ''pong'',
            result_citations = JArr []\<rparr>)]"
  using dispatch_ignores_tool_name
    [where create = scripted_create and post = scripted_post and url = "''http://bridge''"
       and st = "initial_state ([Inr (final_answer ''pong received'')], snd ping_script)"
       and ms = "[\<lparr>role = ''user'', msg_content = Text ''ping''\<rparr>]"
       and f = "\<lambda>nm. ''delete_everything''" and resp = ping_request]
  by (simp add: run_defs ping_script_def rename_tools_def)

subsection \<open>Session identifier\<close>

text \<open>
  C3. In a process run of any number of exchanges, cut at any point, every bridge
  request carries the conversation identifier that a bridge call returned most recently
  before it, and none if no call has returned one yet; and the module variable holds
  the identifier returned most recently, so that a bridge result without an identifier
  leaves it as it was. A bridge call returns an identifier when its result has a value
  under \<^verbatim>\<open>conversation_id\<close> that is true in Python's sense (line 120).
\<close>

theorem session_identifier_follows_bridge_results:
  "ids_follow None (trace (snd (exchanges n create post url (initial_state w) ums))) \<and>
   conversation_id (snd (exchanges n create post url (initial_state w) ums)) =
     stored (latest_id None (trace (snd (exchanges n create post url (initial_state w) ums))))"
  using exchanges_inv[OF initial_state_inv, of n create "post" url w ums]
  by (simp add: session_inv_def)

theorem session_identifier_follows_bridge_results_witness:
  "bridge_calls (trace (snd (exchanges (Suc 0) scripted_create scripted_post ''http://bridge''
       (initial_state two_round_script) [''ping'', ''tell me more''])))
   = [(JObj [(''action'', JStr ''new_conversation''), (''message'', JStr ''ping''),
             (''persona'', JStr ''david'')],
       Inr \<lparr>result_conversation_id = JStr ''c1'', result_response = JStr ''pong'',
            result_citations = JArr []\<rparr>),
      (JObj [(''action'', JStr ''reply_to_conversation''), (''conversation_id'', JStr ''c1''),
             (''message'', JStr ''more'')],
       Inr \<lparr>result_conversation_id = JNull, result_response = JStr ''details'',
            result_citations = JArr []\<rparr>)] \<and>
   conversation_id (snd (exchanges (Suc 0) scripted_create scripted_post ''http://bridge''
       (initial_state two_round_script) [''ping'', ''tell me more''])) = JStr ''c1'' \<and>
   ids_follow None (trace (snd (exchanges (Suc 0) scripted_create scripted_post ''http://bridge''
       (initial_state two_round_script) [''ping'', ''tell me more''])))"
  using session_identifier_follows_bridge_results
    [where n = "Suc 0" and create = scripted_create and post = scripted_post
       and url = "''http://bridge''" and w = two_round_script
       and ums = "[''ping'', ''tell me more'']"]
  by (simp add: run_defs two_round_script_def)

subsection \<open>Transcript\<close>

text \<open>
  C4. In one exchange, cut at any point, with the chat service recording what it
  receives: what was received before is untouched, and the message list of every chat
  request received after the first is the message list of the chat request received
  before it followed by exactly two turns: the assistant turn with the content of the
  reply to that earlier request, and a user turn with one tool result keyed to the
  identifier of the first tool-use block of that reply. No earlier turn changes or
  disappears.
\<close>

theorem transcript_strictly_appended:
  "take (length (snd (world st)))
     (snd (world (snd (chat_with_claude n (recorded_create create) (recorded_post post) url st
                         user_message)))) = snd (world st) \<and>
   append_only (received_chats
     (drop (length (snd (world st)))
        (snd (world (snd (chat_with_claude n (recorded_create create) (recorded_post post) url st
                            user_message))))))"
proof -
  let ?st' = "snd (chat_with_claude n (recorded_create create) (recorded_post post) url st user_message)"
  obtain es rs where s: "trace ?st' = trace st @ es" "snd (world ?st') = snd (world st) @ rs"
    "list_all2 same_call es rs"
    using chat_with_claude_synced by (rule synced_fromE)
  have "append_only (chat_calls es)"
    using exchange_log_append_only[of st n "recorded_create create" "recorded_post post" url user_message]
      s(1) by simp
  then have "append_only (received_chats rs)" using s(3) by (simp add: same_call_chats)
  then show ?thesis using s(2) by simp
qed

theorem transcript_strictly_appended_witness:
  "map (\<lambda>c. messages (fst c))
     (received_chats (snd (world (snd (chat_with_claude (Suc 0) (recorded_create scripted_create)
        (recorded_post scripted_post) ''http://bridge'' (initial_state (ping_script, [])) ''ping'')))))
   = [[\<lparr>role = ''user'', msg_content = Text ''ping''\<rparr>],
      [\<lparr>role = ''user'', msg_content = Text ''ping''\<rparr>,
       \<lparr>role = ''assistant'', msg_content = Blocks (content ping_request)\<rparr>,
       \<lparr>role = ''user'', msg_content = ToolResults
          [\<lparr>tool_use_id = ''toolu_1'', result_content = JStr ''pong''\<rparr>]\<rparr>]] \<and>
   append_only (received_chats (snd (world (snd (chat_with_claude (Suc 0)
        (recorded_create scripted_create) (recorded_post scripted_post) ''http://bridge''
        (initial_state (ping_script, [])) ''ping'')))))"
  using transcript_strictly_appended
    [where n = "Suc 0" and create = scripted_create and post = scripted_post
       and url = "''http://bridge''" and st = "initial_state (ping_script, [])"
       and user_message = "''ping''"]
  by (simp add: run_defs rec_defs ping_script_def create_request_def)

subsection \<open>Bridge failure\<close>

text \<open>
  C5 as stated fails: \<^verbatim>\<open>raise_for_status\<close> raises on the codes 400 to 599 only. When
  the bridge answers with status 300 and a JSON body, \<^verbatim>\<open>call_david_gpt\<close> returns, the
  loop calls the chat service a second time and the exchange returns its text.
\<close>

theorem redirect_status_does_not_raise:
  "map (map_sum id status_code) (snd redirect_script) = [Inr 300] \<and>
   fst (chat_with_claude (Suc 0) scripted_create scripted_post ''http://bridge''
          (initial_state redirect_script) ''ping'') = Some (Inr (Some ''done'')) \<and>
   length (chat_calls (trace (snd (chat_with_claude (Suc 0) scripted_create scripted_post
          ''http://bridge'' (initial_state redirect_script) ''ping'')))) = 2"
  by (simp add: run_defs redirect_script_def)

text \<open>
  C5, amended. When the bridge answers with a status code from 400 to 599,
  \<^verbatim>\<open>call_david_gpt\<close> raises HTTPError with that code. A bridge call that raises is
  the last entry of the log of its exchange, and \<^verbatim>\<open>chat_with_claude\<close> raises the same
  error: no chat call follows, the bridge is not called again, and no text is returned.
\<close>

theorem error_status_aborts_exchange:
  "(post (world sb) url (request_json m cid) = (Inr r, w') \<and>
    400 \<le> status_code r \<and> status_code r < 600 \<longrightarrow>
      call_david_gpt post url m cid sb =
        (Inl (HTTPError (status_code r)),
         sb\<lparr>world := w',
             trace := trace sb @
               [BridgeCall url (request_json m cid) (Inl (HTTPError (status_code r)))]\<rparr>)) \<and>
   (trace (snd (chat_with_claude n create post url st user_message)) =
      trace st @ pre @ BridgeCall u b (Inl e) # rest \<longrightarrow>
      rest = [] \<and> fst (chat_with_claude n create post url st user_message) = Some (Inl e))"
proof (rule conjI; rule impI)
  assume "post (world sb) url (request_json m cid) = (Inr r, w') \<and>
    400 \<le> status_code r \<and> status_code r < 600"
  then show "call_david_gpt post url m cid sb =
        (Inl (HTTPError (status_code r)),
         sb\<lparr>world := w',
             trace := trace sb @
               [BridgeCall url (request_json m cid) (Inl (HTTPError (status_code r)))]\<rparr>)"
    using call_david_gpt_http_error[of "post" sb url m cid r w'] by simp
next
  assume tr: "trace (snd (chat_with_claude n create post url st user_message)) =
      trace st @ pre @ BridgeCall u b (Inl e) # rest"
  let ?ms = "[\<lparr>role = ''user'', msg_content = Text user_message\<rparr>]"
  obtain reply w1 where cr: "create (world st) (create_request ?ms) = (reply, w1)"
    by (cases "create (world st) (create_request ?ms)")
  let ?C = "ChatCall (create_request ?ms) reply"
  let ?st' = "st\<lparr>world := w1, trace := trace st @ [?C]\<rparr>"
  show "rest = [] \<and> fst (chat_with_claude n create post url st user_message) = Some (Inl e)"
  proof (cases reply)
    case (Inl e')
    then have "[?C] = pre @ BridgeCall u b (Inl e) # rest"
      using tr cr by (simp add: chat_with_claude_def)
    then have False by (cases pre) simp_all
    then show ?thesis ..
  next
    case (Inr resp)
    have run: "chat_with_claude n create post url st user_message =
                 loop n create post url ?st' ?ms resp"
      using cr Inr by (simp add: chat_with_claude_def Let_def)
    obtain es where es: "trace (snd (loop n create post url ?st' ?ms resp)) = trace ?st' @ es"
      using loop_trace_prefix by blast
    then have "?C # es = pre @ BridgeCall u b (Inl e) # rest"
      using tr run by simp
    then obtain pre' where "es = pre' @ BridgeCall u b (Inl e) # rest"
      by (cases pre) auto
    then have "trace (snd (loop n create post url ?st' ?ms resp)) =
                 trace ?st' @ pre' @ BridgeCall u b (Inl e) # rest"
      using es by simp
    then show ?thesis using loop_failed_bridge_last run by metis
  qed
qed

theorem error_status_aborts_exchange_witness:
  "chat_with_claude (Suc 0) scripted_create scripted_post ''http://bridge''
     (initial_state unavailable_script) ''ping''
   = (Some (Inl (HTTPError 503)),
      \<lparr>conversation_id = JNull,
       trace = [ChatCall (create_request [\<lparr>role = ''user'', msg_content = Text ''ping''\<rparr>])
                  (Inr ping_request),
                BridgeCall ''http://bridge''
                  (JObj [(''action'', JStr ''new_conversation''), (''message'', JStr ''ping''),
                         (''persona'', JStr ''david'')])
                  (Inl (HTTPError 503))],
       world = ([Inr (final_answer ''never asked for'')], [])\<rparr>)"
  using error_status_aborts_exchange
    [where post = scripted_post and create = scripted_create and url = "''http://bridge''"
       and sb = "\<lparr>conversation_id = JNull,
                    trace = [ChatCall (create_request [\<lparr>role = ''user'', msg_content = Text ''ping''\<rparr>])
                               (Inr ping_request)],
                    world = ([Inr (final_answer ''never asked for'')], snd unavailable_script)\<rparr>"
       and m = "JStr ''ping''" and cid = JNull
       and r = "bridge_reply 503 [(''conversation_id'', JStr ''c9'')]"
       and w' = "([Inr (final_answer ''never asked for'')], [])"
       and n = "Suc 0" and st = "initial_state unavailable_script" and user_message = "''ping''"
       and pre = "[ChatCall (create_request [\<lparr>role = ''user'', msg_content = Text ''ping''\<rparr>])
                     (Inr ping_request)]"
       and u = "''http://bridge''"
       and b = "JObj [(''action'', JStr ''new_conversation''), (''message'', JStr ''ping''),
                      (''persona'', JStr ''david'')]"
       and e = "HTTPError 503" and rest = "[]"]
  by (simp add: run_defs unavailable_script_def)

text \<open>
  C9 as stated fails for the same reason: on status 300 with a JSON body that has a
  conversation identifier, the call returns and the identifier is stored.
\<close>

theorem redirect_status_updates_session:
  "map (map_sum id status_code) (snd redirect_script) = [Inr 300] \<and>
   conversation_id (initial_state redirect_script) = JNull \<and>
   conversation_id (snd (chat_with_claude (Suc 0) scripted_create scripted_post ''http://bridge''
          (initial_state redirect_script) ''ping'')) = JStr ''c9''"
  by (simp add: run_defs redirect_script_def)

text \<open>
  C9, amended. When the bridge answers a round's request with a status code from 400
  to 599, the session identifier after the loop has stopped is the one held before the
  call, whatever the body of the answer says.
\<close>

theorem error_status_keeps_session_id:
  assumes "first_tool_use (content resp) = Some tu"
    and "subscript (tu_input tu) ''message'' = Inr m"
    and "post (world st) url (request_json m (conversation_id st)) = (Inr r, w')"
    and "400 \<le> status_code r" and "status_code r < 600"
  shows "conversation_id (snd (loop (Suc n) create post url st ms resp)) = conversation_id st"
  using assms(1-2)
    call_david_gpt_http_error[of "post" st url m "conversation_id st" r w', OF assms(3-5)]
  by (simp add: loop_body_def)

theorem error_status_keeps_session_id_witness:
  "conversation_id (snd (loop (Suc 0) scripted_create scripted_post ''http://bridge''
     ((initial_state unavailable_script)\<lparr>conversation_id := JStr ''c1''\<rparr>)
     [\<lparr>role = ''user'', msg_content = Text ''ping''\<rparr>] ping_request)) = JStr ''c1''"
  using error_status_keeps_session_id
    [where resp = ping_request
       and tu = "\<lparr>tu_id = ''toolu_1'', tu_name = ''ask_david_gpt'',
                  tu_input = JObj [(''message'', JStr ''ping'')]\<rparr>"
       and m = "JStr ''ping''" and post = scripted_post
       and st = "(initial_state unavailable_script)\<lparr>conversation_id := JStr ''c1''\<rparr>"
       and url = "''http://bridge''"
       and r = "bridge_reply 503 [(''conversation_id'', JStr ''c9'')]"
       and w' = "(fst unavailable_script, [])"
       and n = 0 and create = scripted_create
       and ms = "[\<lparr>role = ''user'', msg_content = Text ''ping''\<rparr>]"]
  by (simp add: run_defs unavailable_script_def)

subsection \<open>The scenario of the specification\<close>

text \<open>User message ping, one tool round answered pong in conversation c1, closing text:
  the exchange returns the closing text and the session identifier is c1.\<close>

lemma ping_scenario:
  "fst (chat_with_claude (Suc 0) scripted_create scripted_post ''http://bridge''
          (initial_state ping_script) ''ping'') = Some (Inr (Some ''pong received'')) \<and>
   conversation_id (snd (chat_with_claude (Suc 0) scripted_create scripted_post ''http://bridge''
          (initial_state ping_script) ''ping'')) = JStr ''c1''"
  by (simp add: run_defs ping_script_def)

end
